theory Spec2Isabelle
  imports Main "HOL-Library.AList" "HOL-Library.Sublist" "HOL-Library.Multiset"
begin

section \<open>Data model\<close>

text \<open>
  Strings are Python \<open>str\<close> values over the code points 0..255. Byte strings are lists
  of 8-bit characters. A \<open>datetime\<close> is offset-naive or offset-aware; the integer is
  the instant it denotes on its own time line. Two values of the same kind compare by
  their instants; comparing a naive with an aware value raises \<open>TypeError\<close>.
\<close>

datatype datetime = Naive int | Aware int

type_synonym bytes = "char list"

fun instant_of :: "datetime \<Rightarrow> int" where
  "instant_of (Naive t) = t"
| "instant_of (Aware t) = t"

fun is_naive :: "datetime \<Rightarrow> bool" where
  "is_naive (Naive t) = True"
| "is_naive (Aware t) = False"

text \<open>\<open>src/models/email.py\<close>: the dataclasses \<open>Attachment\<close> and \<open>Email\<close>
  (\<open>raw_data\<close> is never set by the code modelled here and is left out).\<close>

record attachment =
  att_filename :: string
  att_content_type :: string
  att_size :: int
  att_data :: "bytes option"
  att_id :: "string option"

record email =
  em_id :: string
  em_subject :: string
  em_from_address :: string
  em_to_addresses :: "string list"
  em_cc_addresses :: "string list"
  em_bcc_addresses :: "string list"
  em_date :: datetime
  em_body_text :: string
  em_body_html :: string
  em_attachments :: "attachment list"
  em_is_read :: bool
  em_is_starred :: bool
  em_thread_id :: "string option"
  em_folder :: "string option"

text \<open>\<open>src/models/folder.py\<close>: the dataclass \<open>Folder\<close>; \<open>Folder\<close> below is its
  constructor with \<open>__post_init__\<close>.\<close>

record folder =
  fo_name :: string
  fo_display_name :: string
  fo_unread_count :: nat
  fo_total_count :: nat
  fo_id :: "string option"

definition Folder :: "string \<Rightarrow> string \<Rightarrow> string option \<Rightarrow> nat \<Rightarrow> nat \<Rightarrow> folder" where
  "Folder name display_name ident unread_count total_count =
     \<lparr>fo_name = name,
      fo_display_name = (if display_name = [] then name else display_name),
      fo_unread_count = unread_count,
      fo_total_count = total_count,
      fo_id = ident\<rparr>"

text \<open>
  A stored message is the JSON object of the mailbox document
  (\<open>Dict[str, Any]\<close>). Each key the code reads is a field; \<open>None\<close> is a key that
  is absent, so that every \<open>.get(key, default)\<close> of the source is a case
  distinction of the model. The value of \<open>"date"\<close> is the ISO-8601 string, modelled by
  the \<open>datetime\<close> that \<open>datetime.fromisoformat\<close> reads from it (aware when the string
  carries an offset); \<open>None\<close> there is a key that is absent or a string
  \<open>fromisoformat\<close> rejects (both branches of the source read the clock).
\<close>

record att_dict =
  ad_filename :: "string option"
  ad_content_type :: "string option"
  ad_size :: "int option"
  ad_data :: "bytes option"
  ad_id :: "string option"

record email_dict =
  d_id :: "string option"
  d_subject :: "string option"
  d_from_address :: "string option"
  d_to_addresses :: "string list option"
  d_cc_addresses :: "string list option"
  d_bcc_addresses :: "string list option"
  d_date :: "datetime option"
  d_body_text :: "string option"
  d_body_html :: "string option"
  d_attachments :: "att_dict list option"
  d_is_read :: "bool option"
  d_is_starred :: "bool option"
  d_folder :: "string option"

text \<open>A mailbox is a Python \<open>dict\<close> from message id to stored message: an association
  list in insertion order (assignment to a present key keeps its place, to a new key
  appends: \<open>AList.update\<close>).\<close>

type_synonym mailbox = "(string \<times> email_dict) list"

text \<open>\<open>LocalProvider\<close>: the fields of the object the operations read or write.\<close>

record local_provider =
  email_address :: string
  emails :: mailbox
  smtp_server :: "string option"
  smtp_username :: "string option"
  smtp_password :: "string option"
  smtp_session :: bool
  connected :: bool

text \<open>
  The storage directory. A file holds a mailbox document, valid JSON that is not an
  object, or bytes \<open>json.load\<close> rejects. \<open>faults\<close> says which paths the file system
  fails on, and how: a name it rejects (\<open>Path.exists\<close> and \<open>open\<close> raise \<open>OSError\<close>),
  a file \<open>open(path, 'w')\<close> cannot open (the file stays as it is), or a file whose
  write fails after \<open>open\<close> has truncated it (the file is left with the given content,
  a partial document). \<open>console\<close> is what the code has printed.
\<close>

datatype file_content = Garbage | OtherJson | Document mailbox

datatype fault = NameRejected | OpenFails | WriteFails file_content

record world =
  files :: "(string \<times> file_content) list"
  faults :: "(string \<times> fault) list"
  console :: "string list"

text \<open>The exceptions of the model; \<open>IOError\<close> is Python's \<open>OSError\<close>.\<close>

datatype exn = IOError | TypeError | AttributeError | LibraryError

section \<open>The Local Store (\<open>src/providers/local_provider.py\<close>)\<close>

text \<open>\<open>email_address.replace('@', '_at_')\<close> and the file name built from it.\<close>

fun replace_at :: "string \<Rightarrow> string" where
  "replace_at [] = []"
| "replace_at (c # cs) = (if c = CHR ''@'' then ''_at_'' @ replace_at cs else c # replace_at cs)"

definition mailbox_file :: "string \<Rightarrow> string" where
  "mailbox_file addr = replace_at addr @ ''.json''"

definition emails_file :: "local_provider \<Rightarrow> string" where
  "emails_file p = mailbox_file (email_address p)"

text \<open>\<open>path.exists()\<close>.\<close>

definition path_exists :: "world \<Rightarrow> string \<Rightarrow> exn + bool" where
  "path_exists w path =
     (case map_of (faults w) path of
        Some NameRejected \<Rightarrow> Inl IOError
      | _ \<Rightarrow> Inr (map_of (files w) path \<noteq> None))"

text \<open>\<open>with open(path, 'w') as f: json.dump(doc, f, ...)\<close>: the whole document
  replaces the file, or \<open>IOError\<close> is raised; the result is the exception, if any, and
  the world after the attempt.\<close>

definition write_file :: "world \<Rightarrow> string \<Rightarrow> file_content \<Rightarrow> exn option \<times> world" where
  "write_file w path content =
     (case map_of (faults w) path of
        None \<Rightarrow> (None, w\<lparr>files := AList.update path content (files w)\<rparr>)
      | Some NameRejected \<Rightarrow> (Some IOError, w)
      | Some OpenFails \<Rightarrow> (Some IOError, w)
      | Some (WriteFails left) \<Rightarrow> (Some IOError, w\<lparr>files := AList.update path left (files w)\<rparr>))"

text \<open>\<open>_save_emails\<close> (lines 55-61): the \<open>IOError\<close> of the write is caught and
  printed.\<close>

definition save_emails :: "local_provider \<Rightarrow> world \<Rightarrow> world" where
  "save_emails p w =
     (case write_file w (emails_file p) (Document (emails p)) of
        (None, w') \<Rightarrow> w'
      | (Some e, w') \<Rightarrow> w'\<lparr>console := console w' @ [''Error saving emails'']\<rparr>)"

text \<open>\<open>mark_read\<close> (lines 350-359) and \<open>delete_email\<close> (lines 361-370). The result
  is what the caller gets (a boolean, or a raised exception), the object and the
  world after the call. \<open>self._emails[email_id]["is_read"] = read\<close> changes one key
  of the stored object in place.\<close>

definition mark_read ::
  "local_provider \<Rightarrow> world \<Rightarrow> string \<Rightarrow> bool \<Rightarrow> (exn + bool) \<times> local_provider \<times> world" where
  "mark_read p w email_id read =
     (if \<not> connected p then (Inr False, p, w)
      else if email_id \<in> fst ` set (emails p) then
        (let p' = p\<lparr>emails := AList.map_entry email_id (\<lambda>d. d\<lparr>d_is_read := Some read\<rparr>) (emails p)\<rparr>
         in (Inr True, p', save_emails p' w))
      else (Inr False, p, w))"

definition delete_email ::
  "local_provider \<Rightarrow> world \<Rightarrow> string \<Rightarrow> (exn + bool) \<times> local_provider \<times> world" where
  "delete_email p w email_id =
     (if \<not> connected p then (Inr False, p, w)
      else if email_id \<in> fst ` set (emails p) then
        (let p' = p\<lparr>emails := AList.map_entry email_id (\<lambda>d. d\<lparr>d_folder := Some ''Trash''\<rparr>) (emails p)\<rparr>
         in (Inr True, p', save_emails p' w))
      else (Inr False, p, w))"

text \<open>\<open>_email_to_dict\<close> (lines 103-129).\<close>

definition att_to_dict :: "attachment \<Rightarrow> att_dict" where
  "att_to_dict a =
     \<lparr>ad_filename = Some (att_filename a),
      ad_content_type = Some (att_content_type a),
      ad_size = Some (att_size a),
      ad_data = (case att_data a of None \<Rightarrow> None | Some b \<Rightarrow> if b = [] then None else Some b),
      ad_id = att_id a\<rparr>"

definition email_to_dict :: "email \<Rightarrow> email_dict" where
  "email_to_dict e =
     \<lparr>d_id = Some (em_id e),
      d_subject = Some (em_subject e),
      d_from_address = Some (em_from_address e),
      d_to_addresses = Some (em_to_addresses e),
      d_cc_addresses = Some (em_cc_addresses e),
      d_bcc_addresses = Some (em_bcc_addresses e),
      d_date = Some (em_date e),
      d_body_text = Some (em_body_text e),
      d_body_html = Some (em_body_html e),
      d_attachments = Some (map att_to_dict (em_attachments e)),
      d_is_read = Some (em_is_read e),
      d_is_starred = Some (em_is_starred e),
      d_folder = Some (case em_folder e of None \<Rightarrow> ''INBOX''
                       | Some f \<Rightarrow> if f = [] then ''INBOX'' else f)\<rparr>"

text \<open>\<open>_dict_to_email\<close> (lines 63-101). \<open>now\<close> is the instant \<open>datetime.now()\<close>
  returns if this conversion calls it; that value is offset-naive.\<close>

definition dict_to_att :: "att_dict \<Rightarrow> attachment" where
  "dict_to_att a =
     \<lparr>att_filename = (case ad_filename a of None \<Rightarrow> [] | Some x \<Rightarrow> x),
      att_content_type = (case ad_content_type a of None \<Rightarrow> [] | Some x \<Rightarrow> x),
      att_size = (case ad_size a of None \<Rightarrow> 0 | Some n \<Rightarrow> n),
      att_data = (case ad_data a of None \<Rightarrow> None | Some b \<Rightarrow> if b = [] then None else Some b),
      att_id = ad_id a\<rparr>"

definition get_folder :: "email_dict \<Rightarrow> string" where
  \<comment> \<open>\<open>email_dict.get("folder", "INBOX")\<close>\<close>
  "get_folder d = (case d_folder d of None \<Rightarrow> ''INBOX'' | Some f \<Rightarrow> f)"

definition get_is_read :: "email_dict \<Rightarrow> bool" where
  \<comment> \<open>\<open>email_dict.get("is_read", False)\<close>\<close>
  "get_is_read d = (case d_is_read d of None \<Rightarrow> False | Some r \<Rightarrow> r)"

definition get_str :: "string option \<Rightarrow> string" where
  \<comment> \<open>\<open>email_dict.get(key, "")\<close>\<close>
  "get_str v = (case v of None \<Rightarrow> [] | Some x \<Rightarrow> x)"

definition get_list :: "'a list option \<Rightarrow> 'a list" where
  \<comment> \<open>\<open>email_dict.get(key, [])\<close>, and \<open>value or []\<close>\<close>
  "get_list v = (case v of None \<Rightarrow> [] | Some x \<Rightarrow> x)"

definition dict_to_email :: "int \<Rightarrow> email_dict \<Rightarrow> email" where
  "dict_to_email now d =
     \<lparr>em_id = get_str (d_id d),
      em_subject = get_str (d_subject d),
      em_from_address = get_str (d_from_address d),
      em_to_addresses = get_list (d_to_addresses d),
      em_cc_addresses = get_list (d_cc_addresses d),
      em_bcc_addresses = get_list (d_bcc_addresses d),
      em_date = (case d_date d of None \<Rightarrow> Naive now | Some t \<Rightarrow> t),
      em_body_text = get_str (d_body_text d),
      em_body_html = get_str (d_body_html d),
      em_attachments = map dict_to_att (get_list (d_attachments d)),
      em_is_read = get_is_read d,
      em_is_starred = (case d_is_starred d of None \<Rightarrow> False | Some r \<Rightarrow> r),
      em_thread_id = None,
      em_folder = Some (get_folder d)\<rparr>"

text \<open>The loop that converts the selected records in order: \<open>clock i\<close> is the clock
  while the record at position \<open>i\<close> of the selection is converted.\<close>

definition dicts_to_emails :: "(nat \<Rightarrow> int) \<Rightarrow> email_dict list \<Rightarrow> email list" where
  "dicts_to_emails clock ds = map (\<lambda>(i, d). dict_to_email (clock i) d) (enumerate 0 ds)"

text \<open>
  \<open>xs.sort(key=lambda e: e.date, reverse=True)\<close>: the stable sort of Python, in
  descending order; with \<open>reverse=True\<close> elements with equal keys keep their order
  (the list is reversed, sorted stably in ascending order, and reversed again). A sort
  has to compare a naive key with an aware one when the list holds both, and that
  comparison raises \<open>TypeError\<close>.
\<close>

definition mixed_dates :: "datetime list \<Rightarrow> bool" where
  "mixed_dates ts = ((\<exists>t \<in> set ts. is_naive t) \<and> (\<exists>t \<in> set ts. \<not> is_naive t))"

definition sort_newest_first :: "email list \<Rightarrow> exn + email list" where
  "sort_newest_first xs =
     (if mixed_dates (map em_date xs) then Inl TypeError
      else Inr (rev (sort_key (\<lambda>e. instant_of (em_date e)) (rev xs))))"

text \<open>\<open>xs[start:stop]\<close> for Python integers: a negative index counts from the end,
  and both are clamped to the list.\<close>

definition slice_index :: "nat \<Rightarrow> int \<Rightarrow> nat" where
  "slice_index n i = (if i < 0 then nat (max (i + int n) 0) else min (nat i) n)"

definition py_slice :: "'a list \<Rightarrow> int \<Rightarrow> int \<Rightarrow> 'a list" where
  "py_slice xs start stop =
     (let s = slice_index (length xs) start; e = slice_index (length xs) stop
      in take (e - s) (drop s xs))"

text \<open>\<open>fetch_emails\<close> (lines 147-166): nothing in it catches the exception of the
  sort.\<close>

definition fetch_emails ::
  "local_provider \<Rightarrow> (nat \<Rightarrow> int) \<Rightarrow> string \<Rightarrow> int \<Rightarrow> int \<Rightarrow> exn + email list" where
  "fetch_emails p clock fname limit offset =
     (if \<not> connected p then Inr []
      else case sort_newest_first
                  (dicts_to_emails clock (filter (\<lambda>d. get_folder d = fname) (map snd (emails p)))) of
             Inl e \<Rightarrow> Inl e
           | Inr sorted_emails \<Rightarrow> Inr (py_slice sorted_emails offset (offset + limit)))"

text \<open>\<open>str.lower()\<close> on the code points 0..255, and \<open>a in b\<close> for strings.\<close>

definition lower_char :: "char \<Rightarrow> char" where
  "lower_char c =
     (let n = (of_char c :: nat)
      in if (65 \<le> n \<and> n \<le> 90) \<or> (192 \<le> n \<and> n \<le> 222 \<and> n \<noteq> 215)
         then char_of (n + 32) else c)"

definition lower :: "string \<Rightarrow> string" where
  "lower s = map lower_char s"

definition str_in :: "string \<Rightarrow> string \<Rightarrow> bool" where
  "str_in a b = sublist a b"

text \<open>\<open>search_emails\<close> (lines 372-398). The folder scope is \<open>Optional[str]\<close>; the
  test \<open>if folder and email_dict.get("folder") != folder\<close> is false for \<open>None\<close> and
  for the empty string, and reads the folder key with no default.\<close>

definition in_scope :: "string option \<Rightarrow> email_dict \<Rightarrow> bool" where
  "in_scope scope d =
     (case scope of None \<Rightarrow> True
      | Some f \<Rightarrow> \<not> (f \<noteq> [] \<and> d_folder d \<noteq> Some f))"

definition matches :: "string \<Rightarrow> email_dict \<Rightarrow> bool" where
  "matches query d =
     (let query_lower = lower query
      in str_in query_lower (lower (get_str (d_subject d)))
       \<or> str_in query_lower (lower (get_str (d_body_text d)))
       \<or> str_in query_lower (lower (get_str (d_from_address d))))"

definition search_emails ::
  "local_provider \<Rightarrow> (nat \<Rightarrow> int) \<Rightarrow> string \<Rightarrow> string option \<Rightarrow> int \<Rightarrow> exn + email list" where
  "search_emails p clock query scope limit =
     (if \<not> connected p then Inr []
      else case sort_newest_first
                  (dicts_to_emails clock
                     (filter (\<lambda>d. in_scope scope d \<and> matches query d) (map snd (emails p)))) of
             Inl e \<Rightarrow> Inl e
           | Inr results \<Rightarrow> Inr (py_slice results 0 limit))"

text \<open>\<open>get_folders\<close> (lines 311-348). \<open>folders\<close> is the dictionary of the first loop:
  folder name to (total, unread), in the order the names are first met.\<close>

fun count_folders :: "email_dict list \<Rightarrow> (string \<times> nat \<times> nat) list \<Rightarrow> (string \<times> nat \<times> nat) list" where
  "count_folders [] folders = folders"
| "count_folders (d # ds) folders =
     (let folder_name = get_folder d;
          folders1 = (if folder_name \<notin> fst ` set folders
                      then AList.update folder_name (0, 0) folders else folders);
          folders2 = AList.map_entry folder_name (\<lambda>(tot, unr). (tot + 1, unr)) folders1;
          folders3 = (if \<not> get_is_read d
                      then AList.map_entry folder_name (\<lambda>(tot, unr). (tot, unr + 1)) folders2
                      else folders2)
      in count_folders ds folders3)"

definition default_folders :: "string list" where
  "default_folders = [''INBOX'', ''Sent'', ''Drafts'', ''Trash'']"

definition get_folders :: "local_provider \<Rightarrow> folder list" where
  "get_folders p =
     (let folders = count_folders (map snd (emails p)) []
      in map (\<lambda>folder_name.
                Folder folder_name folder_name (Some folder_name)
                  (case map_of folders folder_name of None \<Rightarrow> 0 | Some (tot, unr) \<Rightarrow> unr)
                  (case map_of folders folder_name of None \<Rightarrow> 0 | Some (tot, unr) \<Rightarrow> tot))
             default_folders
         @ map (\<lambda>(folder_name, tot, unr).
                  Folder folder_name folder_name (Some folder_name) unr tot)
             (filter (\<lambda>(folder_name, c). folder_name \<notin> set default_folders) folders))"

text \<open>\<open>_is_local_address\<close> (lines 178-181).\<close>

definition is_local_address :: "world \<Rightarrow> string \<Rightarrow> exn + bool" where
  "is_local_address w addr = path_exists w (mailbox_file addr)"

text \<open>
  \<open>send_email\<close> (lines 183-309). \<open>uuid4 k\<close> is the value of the \<open>k\<close>-th call of
  \<open>uuid.uuid4()\<close> in this send, \<open>now\<close> the instant of \<open>datetime.now()\<close>. The relay block
  (lines 229-279) builds a MIME message and hands it to \<open>smtplib\<close>; what the library
  does is the parameter \<open>relay\<close>, and the block's handler prints every failure.
\<close>

datatype smtp_outcome = Relayed | ConnectFailed | FailedAfterConnect

definition truthy :: "string option \<Rightarrow> bool" where
  "truthy v = (case v of None \<Rightarrow> False | Some s \<Rightarrow> s \<noteq> [])"

definition relay_block :: "local_provider \<Rightarrow> world \<Rightarrow> smtp_outcome \<Rightarrow> local_provider \<times> world" where
  "relay_block p w relay =
     (case relay of
        Relayed \<Rightarrow> (p\<lparr>smtp_session := True\<rparr>, w)
      | ConnectFailed \<Rightarrow> (p, w\<lparr>console := console w @ [''Error sending via SMTP'']\<rparr>)
      | FailedAfterConnect \<Rightarrow>
          (p\<lparr>smtp_session := True\<rparr>, w\<lparr>console := console w @ [''Error sending via SMTP'']\<rparr>))"

text \<open>The loop of lines 222-226: local and external recipients, each in the order of
  the to-list; an exception of \<open>_is_local_address\<close> leaves the loop.\<close>

fun partition_recipients :: "world \<Rightarrow> string list \<Rightarrow> exn + (string list \<times> string list)" where
  "partition_recipients w [] = Inr ([], [])"
| "partition_recipients w (addr # rest) =
     (case is_local_address w addr of
        Inl e \<Rightarrow> Inl e
      | Inr is_local \<Rightarrow>
          (case partition_recipients w rest of
             Inl e \<Rightarrow> Inl e
           | Inr (local_recipients, external_recipients) \<Rightarrow>
               Inr (if is_local then (addr # local_recipients, external_recipients)
                    else (local_recipients, addr # external_recipients))))"

definition document_of :: "world \<Rightarrow> string \<Rightarrow> mailbox" where
  \<comment> \<open>the mailbox a file holds: \<open>{}\<close> when \<open>json.load\<close> fails\<close>
  "document_of w path = (case map_of (files w) path of Some (Document doc) \<Rightarrow> doc | _ \<Rightarrow> [])"

definition recipient_copy :: "email \<Rightarrow> string \<Rightarrow> email_dict" where
  "recipient_copy e new_id = (email_to_dict e)\<lparr>d_id := Some new_id, d_folder := Some ''INBOX''\<rparr>"

text \<open>The delivery loop (lines 286-303): an exception leaves the loop, with the world
  as it is at that moment. A file holding JSON that is not an object makes the item
  assignment of line 300 raise \<open>TypeError\<close>.\<close>

fun deliver :: "email \<Rightarrow> (nat \<Rightarrow> string) \<Rightarrow> nat \<Rightarrow> world \<Rightarrow> string list \<Rightarrow> exn option \<times> world" where
  "deliver e uuid4 k w [] = (None, w)"
| "deliver e uuid4 k w (to_addr # rest) =
     (let local_file = mailbox_file to_addr
      in case path_exists w local_file of
           Inl x \<Rightarrow> (Some x, w)
         | Inr False \<Rightarrow> deliver e uuid4 k w rest
         | Inr True \<Rightarrow>
             if map_of (files w) local_file = Some OtherJson then (Some TypeError, w)
             else
               (let recipient_emails = document_of w local_file;
                    recipient_email = recipient_copy e (uuid4 k);
                    recipient_emails' = AList.update (uuid4 k) recipient_email recipient_emails
                in case write_file w local_file (Document recipient_emails') of
                     (Some x, w') \<Rightarrow> (Some x, w')
                   | (None, w') \<Rightarrow> deliver e uuid4 (Suc k) w' rest))"

definition sent_email ::
  "local_provider \<Rightarrow> string \<Rightarrow> int \<Rightarrow> string list \<Rightarrow> string \<Rightarrow> string \<Rightarrow> string option \<Rightarrow>
   string list option \<Rightarrow> string list option \<Rightarrow> attachment list option \<Rightarrow> email" where
  "sent_email p email_id now to_addresses subject body html_body cc_addresses bcc_addresses attachments =
     \<lparr>em_id = email_id,
      em_subject = subject,
      em_from_address = email_address p,
      em_to_addresses = to_addresses,
      em_cc_addresses = get_list cc_addresses,
      em_bcc_addresses = get_list bcc_addresses,
      em_date = Naive now,
      em_body_text = body,
      em_body_html = get_str html_body,
      em_attachments = get_list attachments,
      em_is_read = False,
      em_is_starred = False,
      em_thread_id = None,
      em_folder = Some ''Sent''\<rparr>"

definition send_email ::
  "local_provider \<Rightarrow> world \<Rightarrow> (nat \<Rightarrow> string) \<Rightarrow> int \<Rightarrow> smtp_outcome \<Rightarrow>
   string list \<Rightarrow> string \<Rightarrow> string \<Rightarrow> string option \<Rightarrow>
   string list option \<Rightarrow> string list option \<Rightarrow> attachment list option \<Rightarrow>
   (exn + bool) \<times> local_provider \<times> world" where
  "send_email p w uuid4 now relay to_addresses subject body html_body cc_addresses bcc_addresses attachments =
     (if \<not> connected p then (Inr False, p, w)
      else
        (let email_id = uuid4 0;
             email_obj = sent_email p email_id now to_addresses subject body html_body
                           cc_addresses bcc_addresses attachments
         in case partition_recipients w to_addresses of
              Inl x \<Rightarrow> (Inr False, p, w\<lparr>console := console w @ [''Error sending email'']\<rparr>)
            | Inr (local_recipients, external_recipients) \<Rightarrow>
                (let (p1, w1) = (if external_recipients \<noteq> [] \<and> truthy (smtp_server p)
                                    \<and> truthy (smtp_username p) \<and> truthy (smtp_password p)
                                 then relay_block p w relay else (p, w));
                     p2 = p1\<lparr>emails := AList.update email_id (email_to_dict email_obj) (emails p1)\<rparr>
                 in case deliver email_obj uuid4 1 w1 local_recipients of
                      (Some x, w2) \<Rightarrow>
                        (Inr False, p2, w2\<lparr>console := console w2 @ [''Error sending email'']\<rparr>)
                    | (None, w2) \<Rightarrow> (Inr True, p2, save_emails p2 w2))))"

section \<open>The HTML-to-Text Renderer (\<open>src/utils/html_parser.py\<close>)\<close>

text \<open>
  \<open>str.splitlines()\<close> and \<open>str.strip()\<close> on the code points 0..255: the line
  boundaries are \<open>\n \v \f \r\<close>, \<open>\x1c \x1d \x1e\<close> and \<open>\x85\<close>, with \<open>\r\n\<close> one
  boundary; white space is \<open>\t\<close>, the line boundaries, \<open>\x1f\<close>, the space and \<open>\xa0\<close>.
\<close>

definition LF :: char where "LF = CHR 0x0A"

definition CR :: char where "CR = CHR 0x0D"

definition is_linebreak :: "char \<Rightarrow> bool" where
  "is_linebreak c = ((of_char c :: nat) \<in> {10, 11, 12, 13, 28, 29, 30, 133})"

definition is_space :: "char \<Rightarrow> bool" where
  "is_space c = ((of_char c :: nat) \<in> {9, 10, 11, 12, 13, 28, 29, 30, 31, 32, 133, 160})"

text \<open>\<open>splitlines_from cur s\<close>: the lines of \<open>s\<close>, the first one continuing \<open>cur\<close>. A
  line that a boundary ends is a line even when empty; what follows the last
  boundary is a line only when it is not empty.\<close>

fun splitlines_from :: "string \<Rightarrow> string \<Rightarrow> string list" where
  "splitlines_from cur [] = (if cur = [] then [] else [cur])"
| "splitlines_from cur [c] = (if is_linebreak c then [cur] else [cur @ [c]])"
| "splitlines_from cur (c # d # cs) =
     (if c = CR \<and> d = LF then cur # splitlines_from [] cs
      else if is_linebreak c then cur # splitlines_from [] (d # cs)
      else splitlines_from (cur @ [c]) (d # cs))"

definition splitlines :: "string \<Rightarrow> string list" where
  "splitlines s = splitlines_from [] s"

definition strip :: "string \<Rightarrow> string" where
  "strip s = dropWhile is_space (rev (dropWhile is_space (rev s)))"

text \<open>\<open>"\n".join(lines)\<close>.\<close>

fun join_lines :: "string list \<Rightarrow> string" where
  "join_lines [] = []"
| "join_lines [l] = l"
| "join_lines (l # ls) = l @ LF # join_lines ls"

text \<open>\<open>re.sub(r'\n{3,}', '\n\n', text)\<close>: every maximal run of three or more newlines
  becomes two; \<open>collapse_from n s\<close> has read \<open>n\<close> newlines of the current run.\<close>

definition emit_newlines :: "nat \<Rightarrow> string" where
  "emit_newlines n = (if 3 \<le> n then [LF, LF] else replicate n LF)"

fun collapse_from :: "nat \<Rightarrow> string \<Rightarrow> string" where
  "collapse_from n [] = emit_newlines n"
| "collapse_from n (c # cs) =
     (if c = LF then collapse_from (Suc n) cs
      else emit_newlines n @ c # collapse_from 0 cs)"

definition collapse_newlines :: "string \<Rightarrow> string" where
  "collapse_newlines s = collapse_from 0 s"

text \<open>Lines 43-49 of \<open>html_to_text\<close>: the cleanup of the extracted text.\<close>

definition clean_text :: "string \<Rightarrow> string" where
  "clean_text text =
     (let lines = map strip (splitlines text);
          text1 = join_lines (filter (\<lambda>line. line \<noteq> []) lines);
          text2 = collapse_newlines text1
      in strip text2)"

text \<open>
  Lines 21-40 work on the tree \<open>BeautifulSoup(html_content, 'html.parser')\<close> builds.
  The parser is a third-party library: it is a parameter of the model, a function from
  the input to the tree (the strings \<open>get_text\<close> reads, and the elements by tag name) or
  to an exception. What the source does with the tree is modelled: \<open>decompose\<close> removes
  each element named \<open>script\<close> or \<open>style\<close>, \<open>replace_with\<close> puts a newline string in place
  of each \<open>br\<close> element, \<open>append\<close> adds a newline string as last child of each \<open>p\<close> and
  then of each \<open>div\<close>, and \<open>get_text\<close> concatenates the strings of the tree in order.
\<close>

datatype node = Text string | Element string "node list"

fun decompose :: "string list \<Rightarrow> node \<Rightarrow> node list" where
  "decompose names (Text s) = [Text s]"
| "decompose names (Element tag kids) =
     (if tag \<in> set names then [] else [Element tag (concat (map (decompose names) kids))])"

fun replace_br :: "node \<Rightarrow> node" where
  "replace_br (Text s) = Text s"
| "replace_br (Element tag kids) =
     (if tag = ''br'' then Text [LF] else Element tag (map replace_br kids))"

fun append_newline :: "string \<Rightarrow> node \<Rightarrow> node" where
  "append_newline name (Text s) = Text s"
| "append_newline name (Element tag kids) =
     Element tag (map (append_newline name) kids @ (if tag = name then [Text [LF]] else []))"

fun get_text :: "node \<Rightarrow> string" where
  "get_text (Text s) = s"
| "get_text (Element tag kids) = concat (map get_text kids)"

definition soup_text :: "node list \<Rightarrow> string" where
  "soup_text soup =
     (let soup1 = concat (map (decompose [''script'', ''style'']) soup);
          soup2 = map replace_br soup1;
          soup3 = map (append_newline ''p'') soup2;
          soup4 = map (append_newline ''div'') soup3
      in concat (map get_text soup4))"

text \<open>\<open>html_to_text\<close> (lines 7-49): nothing in it catches an exception of the parser.\<close>

definition html_to_text :: "(string \<Rightarrow> exn + node list) \<Rightarrow> string \<Rightarrow> exn + string" where
  "html_to_text parser html_content =
     (if html_content = [] then Inr []
      else case parser html_content of
             Inl e \<Rightarrow> Inl e
           | Inr soup \<Rightarrow> Inr (clean_text (soup_text soup)))"

text \<open>A line as the cleanup leaves it: not empty, without a line boundary, and with no
  white space at either end.\<close>

definition good_line :: "string \<Rightarrow> bool" where
  "good_line l = (l \<noteq> [] \<and> (\<forall>c \<in> set l. \<not> is_linebreak c)
                  \<and> \<not> is_space (hd l) \<and> \<not> is_space (last l))"

section \<open>The Message Normalizer (\<open>IMAPProvider._parse_email\<close>, \<open>src/providers/imap_provider.py\<close>)\<close>

text \<open>
  \<open>email.message_from_bytes\<close> is the standard library's parser; its result is the
  input of the model: the headers, \<open>is_multipart()\<close>, the parts
  \<open>walk()\<close> yields in order (for each its content type, the text of its
  Content-Disposition header, its file name and its decoded payload), and the content
  type and decoded payload of the message itself.
\<close>

record mime_part =
  mp_content_type :: string
  mp_disposition :: string
  mp_filename :: "string option"
  mp_payload :: "bytes option"

text \<open>
  The value \<open>msg.get\<close> returns for a header: a string, or for a header with 8-bit
  bytes an \<open>email.header.Header\<close> object, which is true in a condition, has no
  \<open>split\<close> and whose \<open>str()\<close> is the given text.
\<close>

datatype header_value = Plain string | Header8bit string

record raw_message =
  rm_headers :: "(string \<times> header_value) list"
  rm_is_multipart :: bool
  rm_walk :: "mime_part list"
  rm_content_type :: string
  rm_payload :: "bytes option"

definition msg_get :: "raw_message \<Rightarrow> string \<Rightarrow> header_value option" where
  \<comment> \<open>\<open>msg.get(name)\<close>: the first header of that name, compared without case\<close>
  "msg_get m name = map_of (map (\<lambda>(k, v). (lower k, v)) (rm_headers m)) (lower name)"

definition header_text :: "header_value \<Rightarrow> string" where
  \<comment> \<open>\<open>str(value)\<close>\<close>
  "header_text v = (case v of Plain s \<Rightarrow> s | Header8bit s \<Rightarrow> s)"

definition header_or :: "header_value option \<Rightarrow> string \<Rightarrow> string" where
  \<comment> \<open>the text of \<open>msg.get(name, default)\<close>\<close>
  "header_or v dflt = (case v of None \<Rightarrow> dflt | Some x \<Rightarrow> header_text x)"

text \<open>\<open>s.split(",")\<close> and \<open>str(n)\<close> for a natural number.\<close>

fun split_from :: "char \<Rightarrow> string \<Rightarrow> string \<Rightarrow> string list" where
  "split_from sep cur [] = [cur]"
| "split_from sep cur (c # cs) =
     (if c = sep then cur # split_from sep [] cs else split_from sep (cur @ [c]) cs)"

definition split_commas :: "string \<Rightarrow> string list" where
  "split_commas s = split_from (CHR '','') [] s"

fun str_nat :: "nat \<Rightarrow> string" where
  "str_nat n =
     (if n < 10 then [char_of (48 + n)]
      else str_nat (n div 10) @ [char_of (48 + n mod 10)])"
declare str_nat.simps [simp del]

definition address_list :: "header_value option \<Rightarrow> exn + string list" where
  \<comment> \<open>\<open>[addr.strip() for addr in addrs.split(",")] if addrs else []\<close> on \<open>msg.get(name, "")\<close>\<close>
  "address_list addrs =
     (case addrs of
        None \<Rightarrow> Inr []
      | Some (Plain s) \<Rightarrow> Inr (if s = [] then [] else map strip (split_commas s))
      | Some (Header8bit s) \<Rightarrow> Inl AttributeError)"

text \<open>The loop over \<open>msg.walk()\<close> (lines 107-129); the state is body text, body HTML
  and the attachments found so far. \<open>decode\<close> is
  \<open>payload.decode('utf-8', errors='ignore')\<close>.\<close>

fun walk_parts ::
  "(bytes \<Rightarrow> string) \<Rightarrow> string \<Rightarrow> mime_part list \<Rightarrow> string \<times> string \<times> attachment list
   \<Rightarrow> string \<times> string \<times> attachment list" where
  "walk_parts decode email_id [] state = state"
| "walk_parts decode email_id (part # rest) (body_text, body_html, attachments) =
     walk_parts decode email_id rest
       (if str_in ''attachment'' (mp_disposition part) then
          (case mp_filename part of
             None \<Rightarrow> (body_text, body_html, attachments)
           | Some filename \<Rightarrow>
               if filename = [] then (body_text, body_html, attachments)
               else (body_text, body_html,
                     attachments @
                       [\<lparr>att_filename = filename,
                         att_content_type = mp_content_type part,
                         att_size = (case mp_payload part of None \<Rightarrow> 0 | Some b \<Rightarrow> int (length b)),
                         att_data = mp_payload part,
                         att_id = Some (email_id @ ''_'' @ str_nat (length attachments))\<rparr>]))
        else if mp_content_type part = ''text/plain'' then
          (case mp_payload part of
             None \<Rightarrow> (body_text, body_html, attachments)
           | Some b \<Rightarrow> if b = [] then (body_text, body_html, attachments)
                       else (decode b, body_html, attachments))
        else if mp_content_type part = ''text/html'' then
          (case mp_payload part of
             None \<Rightarrow> (body_text, body_html, attachments)
           | Some b \<Rightarrow> if b = [] then (body_text, body_html, attachments)
                       else (body_text, decode b, attachments))
        else (body_text, body_html, attachments))"

text \<open>Lines 102-137: the body as parsed, before the HTML fallback.\<close>

definition parse_body ::
  "(bytes \<Rightarrow> string) \<Rightarrow> raw_message \<Rightarrow> string \<Rightarrow> string \<times> string \<times> attachment list" where
  "parse_body decode m email_id =
     (if rm_is_multipart m then walk_parts decode email_id (rm_walk m) ([], [], [])
      else (case rm_payload m of
              None \<Rightarrow> ([], [], [])
            | Some b \<Rightarrow>
                if b = [] then ([], [], [])
                else if rm_content_type m = ''text/html'' then ([], decode b, [])
                else (decode b, [], [])))"

text \<open>
  \<open>_parse_email\<close> (lines 71-163). \<open>parse_date\<close> is the instant the \<open>try\<close> block of
  lines 84-94 computes from a Date header that is a string, \<open>None\<close> when
  \<open>parsedate_tz\<close> returns nothing or anything raises (as it does on a \<open>Header\<close>
  object); \<open>datetime.fromtimestamp\<close> and \<open>datetime.now()\<close> give offset-naive values,
  \<open>now\<close> is the instant of the latter. The subject and the from-address of the result
  are modelled by their text. The address lists are computed before the body is read,
  and neither their exception nor one of \<open>html_to_text\<close> is caught.
\<close>

definition parse_email ::
  "(string \<Rightarrow> exn + node list) \<Rightarrow> (bytes \<Rightarrow> string) \<Rightarrow> (string \<Rightarrow> int option) \<Rightarrow> int \<Rightarrow>
   raw_message \<Rightarrow> string \<Rightarrow> exn + email" where
  "parse_email parser decode parse_date now m email_id =
     (let subject = header_or (msg_get m ''Subject'') ''(No Subject)'';
          from_addr = header_or (msg_get m ''From'') [];
          date = (case msg_get m ''Date'' of
                    Some (Plain date_str) \<Rightarrow>
                      if date_str = [] then Naive now
                      else (case parse_date date_str of None \<Rightarrow> Naive now | Some t \<Rightarrow> Naive t)
                  | _ \<Rightarrow> Naive now)
      in case address_list (msg_get m ''To'') of
           Inl e \<Rightarrow> Inl e
         | Inr to_list \<Rightarrow>
        (case address_list (msg_get m ''Cc'') of
           Inl e \<Rightarrow> Inl e
         | Inr cc_list \<Rightarrow>
        (case address_list (msg_get m ''Bcc'') of
           Inl e \<Rightarrow> Inl e
         | Inr bcc_list \<Rightarrow>
        (let (body_text, body_html, attachments) = parse_body decode m email_id;
             is_read = (str_in (CHR 0x5C # ''Seen'') (header_or (msg_get m ''X-GM-LABELS'') [])
                        \<or> str_in (CHR 0x5C # ''Seen'') (header_or (msg_get m ''Flags'') []));
             result = (\<lambda>text.
               \<lparr>em_id = email_id, em_subject = subject, em_from_address = from_addr,
                em_to_addresses = to_list,
                em_cc_addresses = cc_list,
                em_bcc_addresses = bcc_list,
                em_date = date, em_body_text = text, em_body_html = body_html,
                em_attachments = attachments, em_is_read = is_read, em_is_starred = False,
                em_thread_id = None, em_folder = None\<rparr>)
         in if body_html \<noteq> [] \<and> body_text = [] then
              (case html_to_text parser body_html of
                 Inl e \<Rightarrow> Inl e
               | Inr text \<Rightarrow> Inr (result text))
            else Inr (result body_text)))))"

section \<open>What the claims speak of\<close>

text \<open>The counts the data model requires of a folder: the number of stored messages
  assigned to the folder name, and the number of those that are not read.\<close>

definition total_in :: "string \<Rightarrow> email_dict list \<Rightarrow> nat" where
  "total_in fname ds = length (filter (\<lambda>d. get_folder d = fname) ds)"

definition unread_in :: "string \<Rightarrow> email_dict list \<Rightarrow> nat" where
  "unread_in fname ds = length (filter (\<lambda>d. get_folder d = fname \<and> \<not> get_is_read d) ds)"

text \<open>
  A message shows a stored record when every field the record holds is the field of
  the message: id, subject, addresses, timestamp, bodies, attachments and the starred
  flag; its folder is the record's folder, INBOX for a record that names none, and it
  is read exactly when the record says so.
\<close>

definition att_presents :: "att_dict \<Rightarrow> attachment \<Rightarrow> bool" where
  "att_presents a b =
     ((\<forall>x. ad_filename a = Some x \<longrightarrow> att_filename b = x)
      \<and> (\<forall>x. ad_content_type a = Some x \<longrightarrow> att_content_type b = x)
      \<and> (\<forall>x. ad_size a = Some x \<longrightarrow> att_size b = x)
      \<and> (\<forall>x. ad_data a = Some x \<and> x \<noteq> [] \<longrightarrow> att_data b = Some x)
      \<and> att_id b = ad_id a)"

definition presents :: "email_dict \<Rightarrow> email \<Rightarrow> bool" where
  "presents d e =
     ((\<forall>x. d_id d = Some x \<longrightarrow> em_id e = x)
      \<and> (\<forall>x. d_subject d = Some x \<longrightarrow> em_subject e = x)
      \<and> (\<forall>x. d_from_address d = Some x \<longrightarrow> em_from_address e = x)
      \<and> (\<forall>x. d_to_addresses d = Some x \<longrightarrow> em_to_addresses e = x)
      \<and> (\<forall>x. d_cc_addresses d = Some x \<longrightarrow> em_cc_addresses e = x)
      \<and> (\<forall>x. d_bcc_addresses d = Some x \<longrightarrow> em_bcc_addresses e = x)
      \<and> (\<forall>t. d_date d = Some t \<longrightarrow> em_date e = t)
      \<and> (\<forall>x. d_body_text d = Some x \<longrightarrow> em_body_text e = x)
      \<and> (\<forall>x. d_body_html d = Some x \<longrightarrow> em_body_html e = x)
      \<and> (\<forall>x. d_attachments d = Some x \<longrightarrow> list_all2 att_presents x (em_attachments e))
      \<and> (\<forall>x. d_is_starred d = Some x \<longrightarrow> em_is_starred e = x)
      \<and> em_is_read e = get_is_read d
      \<and> em_folder e = Some (get_folder d))"

text \<open>
  "Sorted by timestamp descending": \<open>ys\<close> holds the messages of \<open>xs\<close>, no timestamp
  is followed by a later one, and messages with the same timestamp keep the order
  they have in \<open>xs\<close>.
\<close>

definition newest_first :: "email list \<Rightarrow> email list \<Rightarrow> bool" where
  "newest_first xs ys =
     (mset ys = mset xs
      \<and> sorted_wrt (\<lambda>a b. instant_of (em_date b) \<le> instant_of (em_date a)) ys
      \<and> (\<forall>t. filter (\<lambda>e. instant_of (em_date e) = t) ys
             = filter (\<lambda>e. instant_of (em_date e) = t) xs))"

text \<open>The stored timestamps of some records can be compared with each other and with
  the clock: none of them is offset-aware, or every record has an offset-aware one.\<close>

definition comparable_dates :: "email_dict list \<Rightarrow> bool" where
  "comparable_dates ds =
     ((\<forall>d \<in> set ds. \<forall>t. d_date d \<noteq> Some (Aware t))
      \<or> (\<forall>d \<in> set ds. \<exists>t. d_date d = Some (Aware t)))"

section \<open>Sample data\<close>

definition sample_dict :: "string \<Rightarrow> string \<Rightarrow> string \<Rightarrow> int \<Rightarrow> bool \<Rightarrow> email_dict" where
  "sample_dict ident subject fname date is_read =
     \<lparr>d_id = Some ident, d_subject = Some subject, d_from_address = Some ''alice@local'',
      d_to_addresses = Some [''bob@local''], d_cc_addresses = Some [], d_bcc_addresses = Some [],
      d_date = Some (Naive date), d_body_text = Some ''Hello'', d_body_html = Some [],
      d_attachments = Some [], d_is_read = Some is_read, d_is_starred = Some False,
      d_folder = Some fname\<rparr>"

text \<open>The message a reader of the store expects for \<open>sample_dict\<close>.\<close>

definition sample_email :: "string \<Rightarrow> string \<Rightarrow> string \<Rightarrow> datetime \<Rightarrow> bool \<Rightarrow> email" where
  "sample_email ident subject fname date is_read =
     \<lparr>em_id = ident, em_subject = subject, em_from_address = ''alice@local'',
      em_to_addresses = [''bob@local''], em_cc_addresses = [], em_bcc_addresses = [],
      em_date = date, em_body_text = ''Hello'', em_body_html = [],
      em_attachments = [], em_is_read = is_read, em_is_starred = False,
      em_thread_id = None, em_folder = Some fname\<rparr>"

definition sample_provider :: local_provider where
  "sample_provider =
     \<lparr>email_address = ''bob@local'',
      emails = [(''m1'', sample_dict ''m1'' ''Hi'' ''INBOX'' 10 False),
                (''m2'', sample_dict ''m2'' ''Re: Hi'' ''Sent'' 20 True)],
      smtp_server = None, smtp_username = None, smtp_password = None,
      smtp_session = False, connected = True\<rparr>"

definition sample_world :: world where
  "sample_world =
     \<lparr>files = [(''bob_at_local.json'', Document (emails sample_provider)),
               (''alice_at_local.json'', Document [])],
      faults = [], console = []\<rparr>"

text \<open>Bob's file cannot be opened for writing; bob's file can be opened, and the write
  then fails and leaves a partial document.\<close>

definition readonly_world :: world where
  "readonly_world = sample_world\<lparr>faults := [(''bob_at_local.json'', OpenFails)]\<rparr>"

definition full_disk_world :: world where
  "full_disk_world = sample_world\<lparr>faults := [(''bob_at_local.json'', WriteFails Garbage)]\<rparr>"

definition folders_provider :: local_provider where
  "folders_provider =
     sample_provider\<lparr>emails :=
       [(''m1'', sample_dict ''m1'' ''Hi'' ''INBOX'' 10 False),
        (''m2'', sample_dict ''m2'' ''Plan'' ''Work'' 20 False),
        (''m3'', sample_dict ''m3'' ''Re: Hi'' ''Sent'' 30 True),
        (''m4'', sample_dict ''m4'' ''Notes'' ''Work'' 40 True)]\<rparr>"

definition html_only_dict :: email_dict where
  "html_only_dict =
     (sample_dict ''m2'' ''Lunch'' ''INBOX'' 20 False)
       \<lparr>d_body_text := Some [], d_body_html := Some ''<p>plan</p>''\<rparr>"

definition html_only_email :: email where
  "html_only_email =
     (sample_email ''m2'' ''Lunch'' ''INBOX'' (Naive 20) False)
       \<lparr>em_body_text := [], em_body_html := ''<p>plan</p>''\<rparr>"

definition search_provider :: local_provider where
  "search_provider =
     sample_provider\<lparr>emails :=
       [(''m1'', sample_dict ''m1'' ''Budget plan'' ''INBOX'' 10 False),
        (''m2'', html_only_dict),
        (''m3'', sample_dict ''m3'' ''PLAN B'' ''INBOX'' 30 True),
        (''m4'', sample_dict ''m4'' ''Re: plan'' ''Sent'' 40 True)]\<rparr>"

text \<open>A mailbox with an offset-naive and an offset-aware timestamp in one folder, and
  a mailbox whose only record has no folder key.\<close>

definition mixed_provider :: local_provider where
  "mixed_provider =
     sample_provider\<lparr>emails :=
       [(''m1'', sample_dict ''m1'' ''Hi'' ''INBOX'' 10 False),
        (''m2'', (sample_dict ''m2'' ''Hi again'' ''INBOX'' 20 False)\<lparr>d_date := Some (Aware 20)\<rparr>)]\<rparr>"

definition legacy_provider :: local_provider where
  "legacy_provider =
     sample_provider\<lparr>emails :=
       [(''m1'', (sample_dict ''m1'' ''Budget plan'' ''INBOX'' 10 False)\<lparr>d_folder := None\<rparr>)]\<rparr>"

definition alice_provider :: local_provider where
  "alice_provider =
     \<lparr>email_address = ''alice@local'', emails = [],
      smtp_server = None, smtp_username = None, smtp_password = None,
      smtp_session = False, connected = True\<rparr>"

definition sample_uuid4 :: "nat \<Rightarrow> string" where
  "sample_uuid4 k = ''uuid-'' @ replicate k (CHR ''x'')"

text \<open>The tree the library's parser builds on the inputs of the examples below, and on
  text without markup (a single string); no other input is used.\<close>

definition example_parser :: "string \<Rightarrow> exn + node list" where
  "example_parser s =
     (if s = ''&lt;b&gt;x&lt;/b&gt;'' then Inr [Text ''<b>x</b>'']
      else if s = ''<b>x</b>'' then Inr [Element ''b'' [Text ''x'']]
      else if s = ''<p></p>'' then Inr [Element ''p'' []]
      else if s = ''<p>Hello</p>'' then Inr [Element ''p'' [Text ''Hello'']]
      else if s = ''<p>a</p><br><br><br><br><p>b</p>'' then
        Inr [Element ''p'' [Text ''a''], Element ''br'' [], Element ''br'' [], Element ''br'' [],
             Element ''br'' [], Element ''p'' [Text ''b'']]
      else if CHR ''<'' \<notin> set s \<and> CHR ''&'' \<notin> set s then Inr [Text s]
      else Inl LibraryError)"

definition html_only_message :: raw_message where
  "html_only_message =
     \<lparr>rm_headers = [(''Subject'', Plain ''Hi''), (''From'', Plain ''alice@example.org''),
                    (''To'', Plain ''bob@example.org, carol@example.org'')],
      rm_is_multipart = False, rm_walk = [],
      rm_content_type = ''text/html'', rm_payload = Some ''<p>Hello</p>''\<rparr>"

definition empty_paragraph_message :: raw_message where
  "empty_paragraph_message = html_only_message\<lparr>rm_payload := Some ''<p></p>''\<rparr>"

text \<open>The same message with a To header that holds 8-bit bytes.\<close>

definition eight_bit_message :: raw_message where
  "eight_bit_message =
     html_only_message\<lparr>rm_headers :=
       [(''Subject'', Plain ''Hi''), (''From'', Plain ''alice@example.org''),
        (''To'', Header8bit ''Bj?rn <bob@example.org>'')]\<rparr>"

section \<open>Theorems\<close>

lemma map_entry_length: "length (AList.map_entry k f al) = length al"
  by (induction al) auto

lemma map_entry_keys: "map fst (AList.map_entry k f al) = map fst al"
  by (induction al) auto

lemma map_entry_absent: "k \<notin> fst ` set al \<Longrightarrow> AList.map_entry k f al = al"
  by (induction al) auto

lemma map_entry_as_map:
  "distinct (map fst al) \<Longrightarrow>
   AList.map_entry k f al = map (\<lambda>(k', v). (k', if k' = k then f v else v)) al"
proof (induction al)
  case Nil
  then show ?case by simp
next
  case (Cons a al)
  obtain k' v where a: "a = (k', v)" by (cases a)
  show ?case
  proof (cases "k' = k")
    case True
    with Cons.prems a have "k \<notin> fst ` set al" by auto
    then have "map (\<lambda>(k', v). (k', if k' = k then f v else v)) al = al"
      by (induction al) auto
    with True a show ?thesis by simp
  next
    case False
    with Cons a show ?thesis by simp
  qed
qed

lemma update_fresh: "k \<notin> fst ` set al \<Longrightarrow> AList.update k v al = al @ [(k, v)]"
  by (induction al) auto

lemma index_filter_Cons:
  "map g (filter (\<lambda>i. P ((a # as) ! i)) [0..<Suc (length as)]) =
     (if P a then [g 0] else []) @ map (\<lambda>i. g (Suc i)) (filter (\<lambda>i. P (as ! i)) [0..<length as])"
proof -
  have "[0..<Suc (length as)] = 0 # [Suc 0..<Suc (length as)]"
    by (rule upt_conv_Cons) simp
  also have "[Suc 0..<Suc (length as)] = map Suc [0..<length as]"
    by (rule map_Suc_upt [symmetric])
  finally have "[0..<Suc (length as)] = 0 # map Suc [0..<length as]" .
  then show ?thesis
    by (simp only: filter.simps list.map filter_map comp_def nth_Cons_0 nth_Cons_Suc
          map_map append.simps split: if_split) simp
qed

lemma index_filter_none:
  "path \<notin> f ` set as \<Longrightarrow> filter (\<lambda>i. f (as ! i) = path) [0..<length as] = []"
  by (auto simp: filter_empty_conv)

lemma deliver_documents:
  assumes "\<forall>a \<in> set as. map_of (files w) (mailbox_file a) \<noteq> None"
    and "\<forall>a \<in> set as. map_of (files w) (mailbox_file a) \<noteq> Some OtherJson"
    and "\<forall>a \<in> set as. map_of (faults w) (mailbox_file a) = None"
    and "inj u"
    and "\<forall>i < length as. u (k + i) \<notin> fst ` set (document_of w (mailbox_file (as ! i)))"
  shows "fst (deliver e u k w as) = None
       \<and> faults (snd (deliver e u k w as)) = faults w
       \<and> console (snd (deliver e u k w as)) = console w
       \<and> (\<forall>path. map_of (files (snd (deliver e u k w as))) path =
            (if path \<in> mailbox_file ` set as
             then Some (Document (document_of w path @
                    map (\<lambda>i. (u (k + i), recipient_copy e (u (k + i))))
                        (filter (\<lambda>i. mailbox_file (as ! i) = path) [0..<length as])))
             else map_of (files w) path))"
  using assms
proof (induction as arbitrary: k w)
  case Nil
  then show ?case by simp
next
  case (Cons a as)
  let ?f = "mailbox_file a"
  let ?doc = "document_of w ?f"
  let ?new = "(u k, recipient_copy e (u k))"
  let ?w1 = "w\<lparr>files := AList.update ?f (Document (?doc @ [?new])) (files w)\<rparr>"
  have fresh0: "u k \<notin> fst ` set ?doc"
    using Cons.prems(5) [rule_format, of 0] by simp
  have ex: "map_of (files w) ?f \<noteq> None" and obj: "map_of (files w) ?f \<noteq> Some OtherJson"
    and ok: "map_of (faults w) ?f = None"
    using Cons.prems(1,2,3) by simp_all
  have step: "deliver e u k w (a # as) = deliver e u (Suc k) ?w1 as"
    using ex obj ok fresh0
    by (simp add: Let_def path_exists_def write_file_def update_fresh)
  have doc1: "\<And>path. document_of ?w1 path = (if path = ?f then ?doc @ [?new] else document_of w path)"
    by (simp add: document_of_def AList.update_conv')
  have ih: "fst (deliver e u (Suc k) ?w1 as) = None
       \<and> faults (snd (deliver e u (Suc k) ?w1 as)) = faults ?w1
       \<and> console (snd (deliver e u (Suc k) ?w1 as)) = console ?w1
       \<and> (\<forall>path. map_of (files (snd (deliver e u (Suc k) ?w1 as))) path =
            (if path \<in> mailbox_file ` set as
             then Some (Document (document_of ?w1 path @
                    map (\<lambda>i. (u (Suc k + i), recipient_copy e (u (Suc k + i))))
                        (filter (\<lambda>i. mailbox_file (as ! i) = path) [0..<length as])))
             else map_of (files ?w1) path))"
  proof (rule Cons.IH)
    show "\<forall>a \<in> set as. map_of (files ?w1) (mailbox_file a) \<noteq> None"
      using Cons.prems(1) by (simp add: AList.update_conv')
    show "\<forall>a \<in> set as. map_of (files ?w1) (mailbox_file a) \<noteq> Some OtherJson"
      using Cons.prems(2) by (simp add: AList.update_conv')
    show "\<forall>a \<in> set as. map_of (faults ?w1) (mailbox_file a) = None"
      using Cons.prems(3) by simp
    show "inj u" by (rule Cons.prems(4))
    show "\<forall>i < length as. u (Suc k + i) \<notin> fst ` set (document_of ?w1 (mailbox_file (as ! i)))"
    proof (intro allI impI)
      fix i assume i: "i < length as"
      have "u (k + Suc i) \<notin> fst ` set (document_of w (mailbox_file ((a # as) ! Suc i)))"
        using Cons.prems(5) i by (metis length_Cons Suc_less_eq)
      then have old: "u (Suc k + i) \<notin> fst ` set (document_of w (mailbox_file (as ! i)))"
        by simp
      have "u (Suc k + i) \<noteq> u k"
        using Cons.prems(4) by (simp add: inj_eq)
      with old show "u (Suc k + i) \<notin> fst ` set (document_of ?w1 (mailbox_file (as ! i)))"
        by (auto simp: doc1)
    qed
  qed
  have files: "\<forall>path. map_of (files (snd (deliver e u k w (a # as)))) path =
            (if path \<in> mailbox_file ` set (a # as)
             then Some (Document (document_of w path @
                    map (\<lambda>i. (u (k + i), recipient_copy e (u (k + i))))
                        (filter (\<lambda>i. mailbox_file ((a # as) ! i) = path) [0..<length (a # as)])))
             else map_of (files w) path)"
  proof
    fix path
    have split: "map (\<lambda>i. (u (k + i), recipient_copy e (u (k + i))))
                   (filter (\<lambda>i. mailbox_file ((a # as) ! i) = path) [0..<length (a # as)]) =
                 (if ?f = path then [?new] else []) @
                 map (\<lambda>i. (u (Suc k + i), recipient_copy e (u (Suc k + i))))
                   (filter (\<lambda>i. mailbox_file (as ! i) = path) [0..<length as])"
      using index_filter_Cons [of "\<lambda>i. (u (k + i), recipient_copy e (u (k + i)))"
                                 "\<lambda>x. mailbox_file x = path" a as]
      by simp
    have final: "map_of (files (snd (deliver e u k w (a # as)))) path =
            (if path \<in> mailbox_file ` set as
             then Some (Document (document_of ?w1 path @
                    map (\<lambda>i. (u (Suc k + i), recipient_copy e (u (Suc k + i))))
                        (filter (\<lambda>i. mailbox_file (as ! i) = path) [0..<length as])))
             else map_of (files ?w1) path)"
      unfolding step using ih by blast
    show "map_of (files (snd (deliver e u k w (a # as)))) path =
            (if path \<in> mailbox_file ` set (a # as)
             then Some (Document (document_of w path @
                    map (\<lambda>i. (u (k + i), recipient_copy e (u (k + i))))
                        (filter (\<lambda>i. mailbox_file ((a # as) ! i) = path) [0..<length (a # as)])))
             else map_of (files w) path)"
    proof (cases "path = ?f")
      case True
      show ?thesis
      proof (cases "path \<in> mailbox_file ` set as")
        case in_rest: True
        with True show ?thesis
          unfolding final split by (simp add: doc1)
      next
        case not_in_rest: False
        then have "filter (\<lambda>i. mailbox_file (as ! i) = path) [0..<length as] = []"
          by (rule index_filter_none)
        with True not_in_rest show ?thesis
          unfolding final split by (simp add: AList.update_conv')
      qed
    next
      case False
      then show ?thesis
        unfolding final split by (auto simp: doc1 AList.update_conv')
    qed
  qed
  from ih files show ?case
    unfolding step by simp
qed

lemma index_filter_count:
  "length (filter (\<lambda>i. f (xs ! i) = y) [0..<length xs]) = count_list (map f xs) y"
proof (induction xs)
  case Nil
  then show ?case by simp
next
  case (Cons a xs)
  have "length (map (\<lambda>i. i) (filter (\<lambda>i. f ((a # xs) ! i) = y) [0..<Suc (length xs)])) =
        length ((if f a = y then [0] else []) @
                map (\<lambda>i. Suc i) (filter (\<lambda>i. f (xs ! i) = y) [0..<length xs]))"
    using index_filter_Cons [of "\<lambda>i. i" "\<lambda>x. f x = y" a xs] by simp
  then have "length (filter (\<lambda>i. f ((a # xs) ! i) = y) [0..<Suc (length xs)]) =
        (if f a = y then 1 else 0) + length (filter (\<lambda>i. f (xs ! i) = y) [0..<length xs])"
    by simp
  with Cons show ?case by simp
qed

lemma partition_all_local:
  "\<forall>a \<in> set as. is_local_address w a = Inr True \<Longrightarrow> partition_recipients w as = Inr (as, [])"
  by (induction as) simp_all

lemma send_email_local_result:
  assumes "connected p"
    and "\<forall>a \<in> set to_addresses. is_local_address w a = Inr True"
    and "fst (deliver (sent_email p (uuid4 0) now to_addresses subject body html_body cc bcc atts)
                uuid4 1 w to_addresses) = None"
  shows "send_email p w uuid4 now relay to_addresses subject body html_body cc bcc atts =
     (let e = sent_email p (uuid4 0) now to_addresses subject body html_body cc bcc atts;
          p2 = p\<lparr>emails := AList.update (uuid4 0) (email_to_dict e) (emails p)\<rparr>
      in (Inr True, p2, save_emails p2 (snd (deliver e uuid4 1 w to_addresses))))"
  using assms(1,3)
  by (auto simp: send_email_def Let_def partition_all_local [OF assms(2)] split: prod.splits option.splits)

text \<open>
  C1 (as amended). A connected Local Store sends to a to-list of local recipients, none
  of them the sender's own mailbox, every file involved being writable, the recipient
  files holding mailbox documents, and \<open>uuid4\<close> returning ids that never repeat and are
  not yet keys of the mailboxes written. Then \<open>send\<close> returns true; the sender's
  mailbox gains exactly one record, with the first id and folder "Sent", and the
  sender's file holds that mailbox; a recipient's document gains exactly one record
  for each position of the to-list that names it, in order: the same message with
  folder "INBOX" under an id of its own, different from the Sent id; no other file
  changes.
\<close>

theorem send_email_local_delivery:
  assumes conn: "connected p"
    and local: "\<forall>a \<in> set to_addresses. is_local_address w a = Inr True"
    and objects: "\<forall>a \<in> set to_addresses. map_of (files w) (mailbox_file a) \<noteq> Some OtherJson"
    and other: "emails_file p \<notin> mailbox_file ` set to_addresses"
    and own_ok: "map_of (faults w) (emails_file p) = None"
    and rcpt_ok: "\<forall>a \<in> set to_addresses. map_of (faults w) (mailbox_file a) = None"
    and uniq: "inj uuid4"
    and fresh_own: "uuid4 0 \<notin> fst ` set (emails p)"
    and fresh_rcpt: "\<forall>i < length to_addresses.
                      uuid4 (Suc i) \<notin> fst ` set (document_of w (mailbox_file (to_addresses ! i)))"
  shows "(let r = send_email p w uuid4 now relay to_addresses subject body html_body cc bcc atts;
              sent = email_to_dict (sent_email p (uuid4 0) now to_addresses subject body html_body cc bcc atts);
              p' = fst (snd r); w' = snd (snd r)
          in fst r = Inr True
           \<and> emails p' = emails p @ [(uuid4 0, sent)]
           \<and> d_id sent = Some (uuid4 0) \<and> d_folder sent = Some ''Sent''
           \<and> map_of (files w') (emails_file p) = Some (Document (emails p'))
           \<and> (\<forall>path. path \<in> mailbox_file ` set to_addresses \<longrightarrow>
                 map_of (files w') path =
                   Some (Document (document_of w path @
                           map (\<lambda>i. (uuid4 (Suc i),
                                      sent\<lparr>d_id := Some (uuid4 (Suc i)), d_folder := Some ''INBOX''\<rparr>))
                               (filter (\<lambda>i. mailbox_file (to_addresses ! i) = path)
                                       [0..<length to_addresses])))
                 \<and> length (filter (\<lambda>i. mailbox_file (to_addresses ! i) = path)
                                   [0..<length to_addresses])
                     = count_list (map mailbox_file to_addresses) path)
           \<and> (\<forall>i < length to_addresses. uuid4 (Suc i) \<noteq> uuid4 0)
           \<and> (\<forall>path. path \<noteq> emails_file p \<and> path \<notin> mailbox_file ` set to_addresses \<longrightarrow>
                 map_of (files w') path = map_of (files w) path))"
proof -
  let ?e = "sent_email p (uuid4 0) now to_addresses subject body html_body cc bcc atts"
  let ?sent = "email_to_dict ?e"
  let ?p2 = "p\<lparr>emails := AList.update (uuid4 0) ?sent (emails p)\<rparr>"
  let ?w2 = "snd (deliver ?e uuid4 1 w to_addresses)"
  let ?w' = "?w2\<lparr>files := AList.update (emails_file p) (Document (emails ?p2)) (files ?w2)\<rparr>"
  have exists: "\<forall>a \<in> set to_addresses. map_of (files w) (mailbox_file a) \<noteq> None"
  proof
    fix a assume "a \<in> set to_addresses"
    with local have "is_local_address w a = Inr True" by simp
    then show "map_of (files w) (mailbox_file a) \<noteq> None"
      by (auto simp: is_local_address_def path_exists_def split: option.splits fault.splits)
  qed
  have fresh1: "\<forall>i < length to_addresses.
                  uuid4 (1 + i) \<notin> fst ` set (document_of w (mailbox_file (to_addresses ! i)))"
    using fresh_rcpt by simp
  note dl = deliver_documents [OF exists objects rcpt_ok uniq fresh1, of ?e]
  have r: "send_email p w uuid4 now relay to_addresses subject body html_body cc bcc atts =
             (Inr True, ?p2, save_emails ?p2 ?w2)"
    using send_email_local_result [OF conn local] dl by (simp add: Let_def)
  have "map_of (faults ?w2) (emails_file p) = None"
    using own_ok dl by simp
  then have sv: "save_emails ?p2 ?w2 = ?w'"
    by (simp add: save_emails_def write_file_def emails_file_def)
  have em: "emails ?p2 = emails p @ [(uuid4 0, ?sent)]"
    using fresh_own by (simp add: update_fresh)
  have flds: "d_id ?sent = Some (uuid4 0) \<and> d_folder ?sent = Some ''Sent''"
    by (simp add: email_to_dict_def sent_email_def)
  have own: "map_of (files ?w') (emails_file p) = Some (Document (emails ?p2))"
    by (simp add: AList.update_conv')
  have rc: "\<forall>path. path \<in> mailbox_file ` set to_addresses \<longrightarrow>
                 map_of (files ?w') path =
                   Some (Document (document_of w path @
                           map (\<lambda>i. (uuid4 (Suc i),
                                      ?sent\<lparr>d_id := Some (uuid4 (Suc i)), d_folder := Some ''INBOX''\<rparr>))
                               (filter (\<lambda>i. mailbox_file (to_addresses ! i) = path)
                                       [0..<length to_addresses])))
                 \<and> length (filter (\<lambda>i. mailbox_file (to_addresses ! i) = path)
                                   [0..<length to_addresses])
                     = count_list (map mailbox_file to_addresses) path"
  proof (intro allI impI)
    fix path assume t: "path \<in> mailbox_file ` set to_addresses"
    have ne: "path \<noteq> emails_file p"
    proof
      assume "path = emails_file p"
      with t other show False by simp
    qed
    have "map_of (files ?w2) path =
            Some (Document (document_of w path @
                    map (\<lambda>i. (uuid4 (1 + i), recipient_copy ?e (uuid4 (1 + i))))
                        (filter (\<lambda>i. mailbox_file (to_addresses ! i) = path)
                                [0..<length to_addresses])))"
      using dl t by simp
    then have "map_of (files ?w') path =
                   Some (Document (document_of w path @
                           map (\<lambda>i. (uuid4 (Suc i),
                                      ?sent\<lparr>d_id := Some (uuid4 (Suc i)), d_folder := Some ''INBOX''\<rparr>))
                               (filter (\<lambda>i. mailbox_file (to_addresses ! i) = path)
                                       [0..<length to_addresses])))"
      using ne by (simp add: AList.update_conv' recipient_copy_def)
    then show "map_of (files ?w') path =
                   Some (Document (document_of w path @
                           map (\<lambda>i. (uuid4 (Suc i),
                                      ?sent\<lparr>d_id := Some (uuid4 (Suc i)), d_folder := Some ''INBOX''\<rparr>))
                               (filter (\<lambda>i. mailbox_file (to_addresses ! i) = path)
                                       [0..<length to_addresses])))
                 \<and> length (filter (\<lambda>i. mailbox_file (to_addresses ! i) = path)
                                   [0..<length to_addresses])
                     = count_list (map mailbox_file to_addresses) path"
      by (simp add: index_filter_count)
  qed
  have ids: "\<forall>i < length to_addresses. uuid4 (Suc i) \<noteq> uuid4 0"
    using uniq by (simp add: inj_eq)
  have fr: "\<forall>path. path \<noteq> emails_file p \<and> path \<notin> mailbox_file ` set to_addresses \<longrightarrow>
                 map_of (files ?w') path = map_of (files w) path"
    using dl by (simp add: AList.update_conv')
  show ?thesis
    unfolding Let_def r sv fst_conv snd_conv
    using em flds own rc ids fr by blast
qed


lemma inj_sample_uuid4: "inj sample_uuid4"
  by (simp add: inj_def sample_uuid4_def)

theorem send_email_local_delivery_witness:
  "fst (send_email alice_provider sample_world sample_uuid4 100 Relayed
          [''bob@local'', ''bob@local''] ''Hi'' ''Hello'' None None None None) = Inr True
   \<and> emails (fst (snd (send_email alice_provider sample_world sample_uuid4 100 Relayed
          [''bob@local'', ''bob@local''] ''Hi'' ''Hello'' None None None None))) =
       [(''uuid-'', email_to_dict (sent_email alice_provider ''uuid-'' 100 [''bob@local'', ''bob@local'']
                                     ''Hi'' ''Hello'' None None None None))]
   \<and> map_of (files (snd (snd (send_email alice_provider sample_world sample_uuid4 100 Relayed
          [''bob@local'', ''bob@local''] ''Hi'' ''Hello'' None None None None)))) ''bob_at_local.json'' =
       Some (Document (emails sample_provider @
         [(''uuid-x'', (email_to_dict (sent_email alice_provider ''uuid-'' 100 [''bob@local'', ''bob@local'']
                                         ''Hi'' ''Hello'' None None None None))
                         \<lparr>d_id := Some ''uuid-x'', d_folder := Some ''INBOX''\<rparr>),
          (''uuid-xx'', (email_to_dict (sent_email alice_provider ''uuid-'' 100 [''bob@local'', ''bob@local'']
                                         ''Hi'' ''Hello'' None None None None))
                         \<lparr>d_id := Some ''uuid-xx'', d_folder := Some ''INBOX''\<rparr>)]))"
proof -
  let ?to = "[''bob@local'', ''bob@local'']"
  have "(let r = send_email alice_provider sample_world sample_uuid4 100 Relayed ?to
                   ''Hi'' ''Hello'' None None None None;
              sent = email_to_dict (sent_email alice_provider (sample_uuid4 0) 100 ?to
                                      ''Hi'' ''Hello'' None None None None);
              p' = fst (snd r); w' = snd (snd r)
          in fst r = Inr True
           \<and> emails p' = emails alice_provider @ [(sample_uuid4 0, sent)]
           \<and> d_id sent = Some (sample_uuid4 0) \<and> d_folder sent = Some ''Sent''
           \<and> map_of (files w') (emails_file alice_provider) = Some (Document (emails p'))
           \<and> (\<forall>path. path \<in> mailbox_file ` set ?to \<longrightarrow>
                 map_of (files w') path =
                   Some (Document (document_of sample_world path @
                           map (\<lambda>i. (sample_uuid4 (Suc i),
                                      sent\<lparr>d_id := Some (sample_uuid4 (Suc i)), d_folder := Some ''INBOX''\<rparr>))
                               (filter (\<lambda>i. mailbox_file (?to ! i) = path) [0..<length ?to])))
                 \<and> length (filter (\<lambda>i. mailbox_file (?to ! i) = path) [0..<length ?to])
                     = count_list (map mailbox_file ?to) path)
           \<and> (\<forall>i < length ?to. sample_uuid4 (Suc i) \<noteq> sample_uuid4 0)
           \<and> (\<forall>path. path \<noteq> emails_file alice_provider \<and> path \<notin> mailbox_file ` set ?to \<longrightarrow>
                 map_of (files w') path = map_of (files sample_world) path))"
  proof (rule send_email_local_delivery)
    show "connected alice_provider" by (simp add: alice_provider_def)
    show "\<forall>a \<in> set ?to. is_local_address sample_world a = Inr True"
      by (simp add: is_local_address_def path_exists_def sample_world_def mailbox_file_def)
    show "\<forall>a \<in> set ?to. map_of (files sample_world) (mailbox_file a) \<noteq> Some OtherJson"
      by (simp add: sample_world_def mailbox_file_def)
    show "emails_file alice_provider \<notin> mailbox_file ` set ?to"
      by (simp add: emails_file_def alice_provider_def mailbox_file_def)
    show "map_of (faults sample_world) (emails_file alice_provider) = None"
      by (simp add: sample_world_def)
    show "\<forall>a \<in> set ?to. map_of (faults sample_world) (mailbox_file a) = None"
      by (simp add: sample_world_def)
    show "inj sample_uuid4" by (rule inj_sample_uuid4)
    show "sample_uuid4 0 \<notin> fst ` set (emails alice_provider)"
      by (simp add: alice_provider_def)
    show "\<forall>i < length ?to.
            sample_uuid4 (Suc i) \<notin> fst ` set (document_of sample_world (mailbox_file (?to ! i)))"
      by (auto simp: All_less_Suc sample_world_def mailbox_file_def document_of_def
          sample_provider_def sample_uuid4_def)
  qed
  then have "fst (send_email alice_provider sample_world sample_uuid4 100 Relayed ?to
                   ''Hi'' ''Hello'' None None None None) = Inr True
     \<and> emails (fst (snd (send_email alice_provider sample_world sample_uuid4 100 Relayed ?to
                   ''Hi'' ''Hello'' None None None None))) =
         emails alice_provider @ [(sample_uuid4 0, email_to_dict (sent_email alice_provider (sample_uuid4 0) 100 ?to
                                      ''Hi'' ''Hello'' None None None None))]
     \<and> map_of (files (snd (snd (send_email alice_provider sample_world sample_uuid4 100 Relayed ?to
                   ''Hi'' ''Hello'' None None None None)))) (mailbox_file ''bob@local'') =
                   Some (Document (document_of sample_world (mailbox_file ''bob@local'') @
                           map (\<lambda>i. (sample_uuid4 (Suc i),
                                      (email_to_dict (sent_email alice_provider (sample_uuid4 0) 100 ?to
                                      ''Hi'' ''Hello'' None None None None))\<lparr>d_id := Some (sample_uuid4 (Suc i)), d_folder := Some ''INBOX''\<rparr>))
                               (filter (\<lambda>i. mailbox_file (?to ! i) = mailbox_file ''bob@local'') [0..<length ?to])))"
    unfolding Let_def by simp
  moreover have "[0..<length ?to] = [0, 1]" by (simp add: upt_rec)
  moreover have "mailbox_file ''bob@local'' = ''bob_at_local.json''" by (simp add: mailbox_file_def)
  moreover have "document_of sample_world ''bob_at_local.json'' = emails sample_provider"
    by (simp add: document_of_def sample_world_def)
  moreover have "sample_uuid4 0 = ''uuid-''" "sample_uuid4 (Suc 0) = ''uuid-x''"
    "sample_uuid4 (Suc (Suc 0)) = ''uuid-xx''" by (simp_all add: sample_uuid4_def)
  moreover have "emails alice_provider = []" by (simp add: alice_provider_def)
  ultimately show ?thesis by simp
qed

text \<open>C1 as stated fails: an address that stands twice in the to-list gets two new
  records in its mailbox document.\<close>

theorem send_email_duplicate_recipient:
  "connected alice_provider
   \<and> is_local_address sample_world ''bob@local'' = Inr True
   \<and> smtp_server alice_provider = None
   \<and> fst (send_email alice_provider sample_world sample_uuid4 100 Relayed
            [''bob@local'', ''bob@local''] ''Hi'' ''Hello'' None None None None) = Inr True
   \<and> length (document_of (snd (snd (send_email alice_provider sample_world sample_uuid4 100 Relayed
            [''bob@local'', ''bob@local''] ''Hi'' ''Hello'' None None None None))) ''bob_at_local.json'')
     = length (document_of sample_world ''bob_at_local.json'') + 2"
  by (simp add: send_email_def Let_def alice_provider_def sample_world_def is_local_address_def
      path_exists_def mailbox_file_def emails_file_def document_of_def sample_provider_def
      sample_uuid4_def write_file_def save_emails_def)

text \<open>Outside the amended claim: a message sent to the sender's own address is written
  to the sender's file and then overwritten by the sender's in-memory mailbox, which
  holds the Sent copy only.\<close>

lemma send_email_to_self:
  "map (\<lambda>(k, d). (k, d_folder d))
     (document_of (snd (snd (send_email alice_provider sample_world sample_uuid4 100 Relayed
        [''alice@local''] ''Hi'' ''Hello'' None None None None))) ''alice_at_local.json'')
   = [(''uuid-'', Some ''Sent'')]"
  by (simp add: send_email_def Let_def alice_provider_def sample_world_def is_local_address_def
      path_exists_def mailbox_file_def emails_file_def document_of_def sample_provider_def
      sample_uuid4_def write_file_def save_emails_def sent_email_def email_to_dict_def)

text \<open>
  C2. In a connected Local Store holding a message with the given id, \<open>delete(id)\<close>
  returns true; the stored records are the same records in the same order (so their
  number is unchanged), each with every field as before, except that the record with
  that id has folder "Trash"; no other field of the provider changes. When the
  mailbox file can be written, the world after the call is the world before with
  that file holding exactly this mailbox: the record is still in the document.
\<close>

theorem delete_email_soft:
  assumes "connected p" and "email_id \<in> fst ` set (emails p)" and "distinct (map fst (emails p))"
  shows "fst (delete_email p w email_id) = Inr True
       \<and> fst (snd (delete_email p w email_id)) =
           p\<lparr>emails := map (\<lambda>(k, d). (k, if k = email_id then d\<lparr>d_folder := Some ''Trash''\<rparr> else d)) (emails p)\<rparr>
       \<and> length (emails (fst (snd (delete_email p w email_id)))) = length (emails p)
       \<and> (map_of (faults w) (emails_file p) = None \<longrightarrow>
            snd (snd (delete_email p w email_id)) =
              w\<lparr>files := AList.update (emails_file p)
                   (Document (map (\<lambda>(k, d). (k, if k = email_id then d\<lparr>d_folder := Some ''Trash''\<rparr> else d))
                                (emails p)))
                   (files w)\<rparr>)"
  using assms
  by (simp add: delete_email_def Let_def map_entry_as_map map_entry_length save_emails_def
      write_file_def emails_file_def)

theorem delete_email_soft_witness:
  "fst (delete_email sample_provider sample_world ''m1'') = Inr True
   \<and> emails (fst (snd (delete_email sample_provider sample_world ''m1''))) =
       [(''m1'', sample_dict ''m1'' ''Hi'' ''Trash'' 10 False),
        (''m2'', sample_dict ''m2'' ''Re: Hi'' ''Sent'' 20 True)]
   \<and> length (emails (fst (snd (delete_email sample_provider sample_world ''m1'')))) = 2
   \<and> files (snd (snd (delete_email sample_provider sample_world ''m1''))) =
       [(''bob_at_local.json'',
           Document [(''m1'', sample_dict ''m1'' ''Hi'' ''Trash'' 10 False),
                     (''m2'', sample_dict ''m2'' ''Re: Hi'' ''Sent'' 20 True)]),
        (''alice_at_local.json'', Document [])]"
  using delete_email_soft [of sample_provider "''m1''" sample_world]
  by (simp add: sample_provider_def sample_dict_def sample_world_def emails_file_def
      mailbox_file_def)

text \<open>
  C3 (as amended). A failed write of the mailbox document does not reach the caller.
  When the provider's own file cannot be written, \<open>mark-read\<close> and \<open>delete\<close> of a
  stored message still return true: the record is changed in memory and the failure
  is printed; the file is as it was when it could not be opened, and holds what the
  failed write left of it when the write failed after the file was opened. \<open>send\<close>
  never raises either: it returns a boolean.
\<close>

theorem save_failure_is_swallowed:
  assumes "map_of (faults w) (emails_file p) = Some fault"
    and "connected p" and "email_id \<in> fst ` set (emails p)"
  shows "fst (mark_read p w email_id b) = Inr True
       \<and> emails (fst (snd (mark_read p w email_id b))) =
           AList.map_entry email_id (\<lambda>d. d\<lparr>d_is_read := Some b\<rparr>) (emails p)
       \<and> files (snd (snd (mark_read p w email_id b))) =
           (case fault of WriteFails left \<Rightarrow> AList.update (emails_file p) left (files w)
            | _ \<Rightarrow> files w)
       \<and> console (snd (snd (mark_read p w email_id b))) = console w @ [''Error saving emails'']
       \<and> fst (delete_email p w email_id) = Inr True
       \<and> emails (fst (snd (delete_email p w email_id))) =
           AList.map_entry email_id (\<lambda>d. d\<lparr>d_folder := Some ''Trash''\<rparr>) (emails p)
       \<and> files (snd (snd (delete_email p w email_id))) =
           (case fault of WriteFails left \<Rightarrow> AList.update (emails_file p) left (files w)
            | _ \<Rightarrow> files w)
       \<and> console (snd (snd (delete_email p w email_id))) = console w @ [''Error saving emails'']
       \<and> (\<exists>r. fst (send_email p w uuid4 now relay to_addresses subject body html_body cc bcc atts) = Inr r)"
proof -
  have s: "\<And>q. emails_file q = emails_file p \<Longrightarrow>
             save_emails q w =
               w\<lparr>files := (case fault of WriteFails left \<Rightarrow> AList.update (emails_file p) left (files w)
                            | _ \<Rightarrow> files w),
                 console := console w @ [''Error saving emails'']\<rparr>"
    using assms(1) by (cases fault) (simp_all add: save_emails_def write_file_def)
  have "\<exists>r. fst (send_email p w uuid4 now relay to_addresses subject body html_body cc bcc atts) = Inr r"
    by (auto simp: send_email_def Let_def split: prod.splits option.splits sum.splits)
  then show ?thesis using assms(2,3) s
    by (simp add: mark_read_def delete_email_def Let_def emails_file_def)
qed

theorem save_failure_is_swallowed_witness:
  "fst (mark_read sample_provider readonly_world ''m1'' True) = Inr True
   \<and> files (snd (snd (mark_read sample_provider readonly_world ''m1'' True))) = files sample_world
   \<and> console (snd (snd (delete_email sample_provider readonly_world ''m1''))) = [''Error saving emails'']
   \<and> fst (delete_email sample_provider full_disk_world ''m1'') = Inr True
   \<and> files (snd (snd (delete_email sample_provider full_disk_world ''m1''))) =
       [(''bob_at_local.json'', Garbage), (''alice_at_local.json'', Document [])]"
  using save_failure_is_swallowed [of readonly_world sample_provider OpenFails "''m1''" True]
    save_failure_is_swallowed [of full_disk_world sample_provider "WriteFails Garbage" "''m1''"]
  by (simp add: emails_file_def mailbox_file_def readonly_world_def full_disk_world_def
      sample_world_def sample_provider_def)

text \<open>C3 as stated fails: the write of the document raises \<open>IOError\<close>, and the caller of
  \<open>mark-read\<close> gets the boolean true.\<close>

theorem save_failure_not_propagated:
  "fst (write_file readonly_world (emails_file sample_provider)
      (Document (emails (fst (snd (mark_read sample_provider readonly_world ''m1'' True)))))) = Some IOError
   \<and> fst (mark_read sample_provider readonly_world ''m1'' True) = Inr True"
  by (simp add: write_file_def readonly_world_def sample_world_def emails_file_def mailbox_file_def
      mark_read_def sample_provider_def Let_def)

text \<open>
  C10. For an id that is not a key of the mailbox, \<open>mark-read(id, b)\<close> and
  \<open>delete(id)\<close> return false and leave the provider (its in-memory mailbox) and the
  world (every file on disk, and the console) exactly as they were: nothing is
  written.
\<close>

theorem unknown_id_is_noop:
  assumes "email_id \<notin> fst ` set (emails p)"
  shows "mark_read p w email_id b = (Inr False, p, w)
       \<and> delete_email p w email_id = (Inr False, p, w)"
  using assms by (simp add: mark_read_def delete_email_def)

theorem unknown_id_is_noop_witness:
  "mark_read sample_provider sample_world ''m9'' True = (Inr False, sample_provider, sample_world)
   \<and> delete_email sample_provider sample_world ''m9'' = (Inr False, sample_provider, sample_world)"
  using unknown_id_is_noop [of "''m9''" sample_provider sample_world True]
  by (simp add: sample_provider_def)

lemma count_folders_map_of:
  "map_of (count_folders ds acc) name =
     (case map_of acc name of
        Some (t, u) \<Rightarrow> Some (t + total_in name ds, u + unread_in name ds)
      | None \<Rightarrow> if total_in name ds = 0 then None
                 else Some (total_in name ds, unread_in name ds))"
proof (induction ds arbitrary: acc)
  case Nil
  then show ?case by (simp add: total_in_def unread_in_def split: option.splits)
next
  case (Cons d ds)
  show ?case
    by (simp add: Cons.IH Let_def AList.update_conv' AList.map_of_map_entry
        total_in_def unread_in_def map_of_eq_None_iff [symmetric]
        split: option.splits)
qed

lemma count_folders_distinct:
  "distinct (map fst acc) \<Longrightarrow> distinct (map fst (count_folders ds acc))"
  by (induction ds arbitrary: acc)
     (simp_all add: Let_def AList.distinct_update AList.distinct_map_entry)

lemma count_folders_keys:
  "fst ` set (count_folders ds []) = get_folder ` set ds"
proof -
  have "fst ` set (count_folders ds []) = dom (map_of (count_folders ds []))"
    by (simp add: dom_map_of_conv_image_fst)
  also have "\<dots> = {name. total_in name ds \<noteq> 0}"
    by (auto simp: count_folders_map_of dom_def)
  also have "\<dots> = get_folder ` set ds"
    by (auto simp: total_in_def filter_empty_conv)
  finally show ?thesis .
qed

lemma get_folders_names:
  "map fo_name (get_folders p) =
     default_folders @
     filter (\<lambda>n. n \<notin> set default_folders) (map fst (count_folders (map snd (emails p)) []))"
  by (simp add: get_folders_def Let_def Folder_def default_folders_def filter_map comp_def
      case_prod_unfold)

text \<open>
  C4. \<open>folders()\<close> returns the four canonical names first, then every other folder
  name present in the stored records, each name once; for every returned folder the
  total count is the number of stored messages assigned to that name and the unread
  count is the number of those that are not read; on a mailbox with no message the
  result is exactly INBOX, Sent, Drafts, Trash with all counts zero. (A record with
  no folder key is assigned to INBOX, one with no is-read key is not read, as in
  every other operation of the store.)
\<close>

theorem get_folders_counts:
  "set (map fo_name (get_folders p)) =
      {''INBOX'', ''Sent'', ''Drafts'', ''Trash''} \<union> get_folder ` set (map snd (emails p))
   \<and> distinct (map fo_name (get_folders p))
   \<and> take 4 (map fo_name (get_folders p)) = [''INBOX'', ''Sent'', ''Drafts'', ''Trash'']
   \<and> (\<forall>f \<in> set (get_folders p).
         fo_total_count f = total_in (fo_name f) (map snd (emails p))
       \<and> fo_unread_count f = unread_in (fo_name f) (map snd (emails p)))
   \<and> get_folders (p\<lparr>emails := []\<rparr>) =
        [Folder ''INBOX'' ''INBOX'' (Some ''INBOX'') 0 0,
         Folder ''Sent'' ''Sent'' (Some ''Sent'') 0 0,
         Folder ''Drafts'' ''Drafts'' (Some ''Drafts'') 0 0,
         Folder ''Trash'' ''Trash'' (Some ''Trash'') 0 0]"
proof -
  let ?ds = "map snd (emails p)"
  let ?fs = "count_folders ?ds []"
  have dist: "distinct (map fst ?fs)"
    by (rule count_folders_distinct) simp
  have names: "set (map fo_name (get_folders p)) =
      {''INBOX'', ''Sent'', ''Drafts'', ''Trash''} \<union> get_folder ` set ?ds"
  proof -
    have "set (map fo_name (get_folders p)) = set default_folders \<union> fst ` set ?fs"
      unfolding get_folders_names by auto
    then show ?thesis by (simp add: count_folders_keys default_folders_def)
  qed
  have d: "distinct (map fo_name (get_folders p))"
    unfolding get_folders_names using dist
    by (auto simp: default_folders_def distinct_map_filter)
  have t: "take 4 (map fo_name (get_folders p)) = [''INBOX'', ''Sent'', ''Drafts'', ''Trash'']"
    unfolding get_folders_names by (simp add: default_folders_def)
  have lookup: "\<And>n. (case map_of ?fs n of None \<Rightarrow> 0 | Some (tot, unr) \<Rightarrow> tot) = total_in n ?ds
              \<and> (case map_of ?fs n of None \<Rightarrow> 0 | Some (tot, unr) \<Rightarrow> unr) = unread_in n ?ds"
    by (auto simp: count_folders_map_of total_in_def unread_in_def filter_empty_conv)
  have c: "\<forall>f \<in> set (get_folders p).
         fo_total_count f = total_in (fo_name f) ?ds
       \<and> fo_unread_count f = unread_in (fo_name f) ?ds"
  proof
    fix f assume "f \<in> set (get_folders p)"
    then consider (default) n where "n \<in> set default_folders"
        "f = Folder n n (Some n)
               (case map_of ?fs n of None \<Rightarrow> 0 | Some (tot, unr) \<Rightarrow> unr)
               (case map_of ?fs n of None \<Rightarrow> 0 | Some (tot, unr) \<Rightarrow> tot)"
      | (other) n tot unr where "(n, tot, unr) \<in> set ?fs" "f = Folder n n (Some n) unr tot"
      by (auto simp: get_folders_def Let_def)
    then show "fo_total_count f = total_in (fo_name f) ?ds
       \<and> fo_unread_count f = unread_in (fo_name f) ?ds"
    proof cases
      case default
      then show ?thesis using lookup [of n] by (simp add: Folder_def)
    next
      case other
      with dist have "map_of ?fs n = Some (tot, unr)" by simp
      with other show ?thesis using lookup [of n] by (simp add: Folder_def)
    qed
  qed
  have e: "get_folders (p\<lparr>emails := []\<rparr>) =
        [Folder ''INBOX'' ''INBOX'' (Some ''INBOX'') 0 0,
         Folder ''Sent'' ''Sent'' (Some ''Sent'') 0 0,
         Folder ''Drafts'' ''Drafts'' (Some ''Drafts'') 0 0,
         Folder ''Trash'' ''Trash'' (Some ''Trash'') 0 0]"
    by (simp add: get_folders_def default_folders_def)
  from names d t c e show ?thesis by blast
qed

theorem get_folders_counts_witness:
  "get_folders folders_provider =
     [Folder ''INBOX'' ''INBOX'' (Some ''INBOX'') 1 1,
      Folder ''Sent'' ''Sent'' (Some ''Sent'') 0 1,
      Folder ''Drafts'' ''Drafts'' (Some ''Drafts'') 0 0,
      Folder ''Trash'' ''Trash'' (Some ''Trash'') 0 0,
      Folder ''Work'' ''Work'' (Some ''Work'') 1 2]
   \<and> total_in ''Work'' (map snd (emails folders_provider)) = 2
   \<and> unread_in ''Work'' (map snd (emails folders_provider)) = 1"
proof -
  have g: "get_folders folders_provider =
     [Folder ''INBOX'' ''INBOX'' (Some ''INBOX'') 1 1,
      Folder ''Sent'' ''Sent'' (Some ''Sent'') 0 1,
      Folder ''Drafts'' ''Drafts'' (Some ''Drafts'') 0 0,
      Folder ''Trash'' ''Trash'' (Some ''Trash'') 0 0,
      Folder ''Work'' ''Work'' (Some ''Work'') 1 2]"
    by (simp add: folders_provider_def get_folders_def sample_dict_def default_folders_def
        get_folder_def get_is_read_def Let_def numeral_2_eq_2)
  have "\<forall>f \<in> set (get_folders folders_provider).
         fo_total_count f = total_in (fo_name f) (map snd (emails folders_provider))
       \<and> fo_unread_count f = unread_in (fo_name f) (map snd (emails folders_provider))"
    using get_folders_counts [of folders_provider] by blast
  then have "total_in ''Work'' (map snd (emails folders_provider)) = 2
       \<and> unread_in ''Work'' (map snd (emails folders_provider)) = 1"
    unfolding g by (simp add: Folder_def)
  with g show ?thesis by simp
qed

lemma py_slice_nonneg:
  assumes "0 \<le> a" and "0 \<le> l"
  shows "py_slice xs a (a + l) = take (nat l) (drop (nat a) xs)"
proof -
  have e: "slice_index (length xs) (a + l) = min (nat a + nat l) (length xs)"
    using assms by (simp add: slice_index_def nat_add_distrib)
  have s: "slice_index (length xs) a = min (nat a) (length xs)"
    using assms by (simp add: slice_index_def)
  show ?thesis
  proof (cases "nat a \<le> length xs")
    case True
    then have "min (nat a + nat l) (length xs) - min (nat a) (length xs)
               = min (nat l) (length (drop (nat a) xs))" by (simp add: min_def)
    moreover have "take (min (nat l) (length (drop (nat a) xs))) (drop (nat a) xs)
                   = take (nat l) (drop (nat a) xs)"
      by (cases "nat l \<le> length (drop (nat a) xs)") (simp_all add: min_def)
    ultimately show ?thesis using True by (simp add: py_slice_def e s Let_def min_absorb1)
  next
    case False
    then show ?thesis by (simp add: py_slice_def e s Let_def)
  qed
qed

lemma sort_newest_first_spec:
  assumes "\<not> mixed_dates (map em_date xs)"
  shows "\<exists>S. sort_newest_first xs = Inr S \<and> newest_first xs S \<and> (\<forall>S'. newest_first xs S' \<longrightarrow> S' = S)"
proof -
  let ?key = "\<lambda>e. instant_of (em_date e)"
  let ?S = "rev (sort_key ?key (rev xs))"
  have "sorted_wrt (\<lambda>a b. ?key a \<le> ?key b) (sort_key ?key (rev xs))"
    using sorted_sort_key [of ?key "rev xs"] by (simp add: sorted_map)
  then have d: "sorted_wrt (\<lambda>a b. ?key b \<le> ?key a) ?S"
    by (simp add: sorted_wrt_rev)
  have st: "\<And>t. filter (\<lambda>e. ?key e = t) ?S = filter (\<lambda>e. ?key e = t) xs"
    by (simp add: rev_filter [symmetric] sort_key_stable)
  have nf: "newest_first xs ?S"
    using d st by (simp add: newest_first_def)
  have un: "\<forall>S'. newest_first xs S' \<longrightarrow> S' = ?S"
  proof (intro allI impI)
    fix S' assume a: "newest_first xs S'"
    then have m: "mset S' = mset xs"
      and s: "sorted_wrt (\<lambda>a b. ?key b \<le> ?key a) S'"
      and f: "\<And>t. filter (\<lambda>e. ?key e = t) S' = filter (\<lambda>e. ?key e = t) xs"
      by (simp_all add: newest_first_def)
    have "sort_key ?key (rev xs) = rev S'"
    proof (rule properties_for_sort_key)
      show "mset (rev S') = mset (rev xs)" using m by simp
      show "\<And>k. k \<in> set (rev S') \<Longrightarrow>
              filter (\<lambda>x. ?key k = ?key x) (rev S') = filter (\<lambda>x. ?key k = ?key x) (rev xs)"
        using f by (simp add: rev_filter [symmetric] eq_commute)
      show "sorted (map ?key (rev S'))"
        using s by (simp add: sorted_map sorted_wrt_rev)
    qed
    then show "S' = ?S" by simp
  qed
  have "sort_newest_first xs = Inr ?S"
    using assms by (simp add: sort_newest_first_def)
  with nf un show ?thesis by blast
qed

lemma att_presents_dict_to_att: "att_presents a (dict_to_att a)"
  by (simp add: att_presents_def dict_to_att_def)

lemma presents_dict_to_email: "presents d (dict_to_email now d)"
proof -
  have "\<And>x. list_all2 att_presents x (map dict_to_att x)"
    by (simp add: list_all2_map2 list_all2_same att_presents_dict_to_att)
  then show ?thesis
    by (simp add: presents_def dict_to_email_def get_str_def get_list_def)
qed

lemma presents_enumerate:
  "list_all2 presents ds (map (\<lambda>(i, d). dict_to_email (clock i) d) (enumerate n ds))"
  by (induction ds arbitrary: n) (simp_all add: presents_dict_to_email)

lemma presents_dicts_to_emails: "list_all2 presents ds (dicts_to_emails clock ds)"
  by (simp add: dicts_to_emails_def presents_enumerate)

lemma dicts_to_emails_member:
  assumes "e \<in> set (dicts_to_emails clock ds)"
  shows "\<exists>d now. d \<in> set ds \<and> e = dict_to_email now d"
proof -
  from assms obtain i d where id: "(i, d) \<in> set (enumerate 0 ds)" and e: "e = dict_to_email (clock i) d"
    by (auto simp: dicts_to_emails_def)
  from id have "d \<in> set ds"
    by (auto simp: in_set_enumerate_eq)
  with e show ?thesis by blast
qed

lemma dict_to_email_naive:
  "is_naive (em_date (dict_to_email now d)) = (\<forall>t. d_date d \<noteq> Some (Aware t))"
proof (cases "d_date d")
  case None
  then show ?thesis by (simp add: dict_to_email_def)
next
  case (Some x)
  then show ?thesis by (cases x) (simp_all add: dict_to_email_def)
qed

lemma comparable_not_mixed:
  assumes "comparable_dates ds"
  shows "\<not> mixed_dates (map em_date (dicts_to_emails clock ds))"
proof
  assume "mixed_dates (map em_date (dicts_to_emails clock ds))"
  then obtain a b where a: "a \<in> set (dicts_to_emails clock ds)" "is_naive (em_date a)"
    and b: "b \<in> set (dicts_to_emails clock ds)" "\<not> is_naive (em_date b)"
    by (auto simp: mixed_dates_def)
  from dicts_to_emails_member [OF a(1)] obtain da na
    where da: "da \<in> set ds" "a = dict_to_email na da" by blast
  from dicts_to_emails_member [OF b(1)] obtain db nb
    where db: "db \<in> set ds" "b = dict_to_email nb db" by blast
  from a(2) da(2) have na: "\<forall>t. d_date da \<noteq> Some (Aware t)"
    by (simp add: dict_to_email_naive)
  from b(2) db(2) obtain t where t: "d_date db = Some (Aware t)"
    by (auto simp: dict_to_email_naive)
  from assms consider "\<forall>d \<in> set ds. \<forall>t. d_date d \<noteq> Some (Aware t)"
    | "\<forall>d \<in> set ds. \<exists>t. d_date d = Some (Aware t)"
    by (auto simp: comparable_dates_def)
  then show False
  proof cases
    case 1
    with db(1) t show False by blast
  next
    case 2
    with da(1) na show False by blast
  qed
qed

text \<open>
  C5 (as amended). In a connected Local Store, for every folder name and all
  non-negative limit and offset, when the stored timestamps of that folder's messages
  can be compared (none is offset-aware, or all are), \<open>fetch(folder, limit, offset)\<close>
  returns the slice \<open>[offset : offset + limit]\<close> of the list, sorted by timestamp
  descending, of messages that show, one for one and in stored order, the stored
  records whose folder is the given one; that sorted list is unique.
\<close>

theorem fetch_emails_slice:
  assumes "connected p" and "0 \<le> limit" and "0 \<le> offset"
    and "comparable_dates (filter (\<lambda>d. get_folder d = fname) (map snd (emails p)))"
  shows "\<exists>msgs S.
           list_all2 presents (filter (\<lambda>d. get_folder d = fname) (map snd (emails p))) msgs
         \<and> newest_first msgs S
         \<and> (\<forall>S'. newest_first msgs S' \<longrightarrow> S' = S)
         \<and> fetch_emails p clock fname limit offset = Inr (take (nat limit) (drop (nat offset) S))"
proof -
  let ?recs = "filter (\<lambda>d. get_folder d = fname) (map snd (emails p))"
  let ?msgs = "dicts_to_emails clock ?recs"
  have "\<not> mixed_dates (map em_date ?msgs)"
    using assms(4) by (rule comparable_not_mixed)
  then obtain S where S: "sort_newest_first ?msgs = Inr S" "newest_first ?msgs S"
    "\<forall>S'. newest_first ?msgs S' \<longrightarrow> S' = S"
    using sort_newest_first_spec by blast
  have "fetch_emails p clock fname limit offset = Inr (take (nat limit) (drop (nat offset) S))"
    using assms(1-3) S(1) by (simp add: fetch_emails_def py_slice_nonneg)
  with S(2,3) presents_dicts_to_emails [of ?recs clock] show ?thesis by blast
qed

theorem fetch_emails_slice_witness:
  "fetch_emails search_provider (\<lambda>i. 0) ''INBOX'' 2 1 =
     Inr [html_only_email, sample_email ''m1'' ''Budget plan'' ''INBOX'' (Naive 10) False]
   \<and> (\<exists>msgs S.
         list_all2 presents
           [sample_dict ''m1'' ''Budget plan'' ''INBOX'' 10 False, html_only_dict,
            sample_dict ''m3'' ''PLAN B'' ''INBOX'' 30 True] msgs
       \<and> newest_first msgs S
       \<and> take 2 (drop 1 S) =
           [html_only_email, sample_email ''m1'' ''Budget plan'' ''INBOX'' (Naive 10) False])"
proof -
  have recs: "filter (\<lambda>d. get_folder d = ''INBOX'') (map snd (emails search_provider)) =
      [sample_dict ''m1'' ''Budget plan'' ''INBOX'' 10 False, html_only_dict,
       sample_dict ''m3'' ''PLAN B'' ''INBOX'' 30 True]"
    by (simp add: search_provider_def get_folder_def sample_dict_def html_only_dict_def)
  have ev: "fetch_emails search_provider (\<lambda>i. 0) ''INBOX'' 2 1 =
     Inr [html_only_email, sample_email ''m1'' ''Budget plan'' ''INBOX'' (Naive 10) False]"
    unfolding fetch_emails_def recs
    by (simp add: search_provider_def sample_provider_def sort_newest_first_def mixed_dates_def
        dicts_to_emails_def dict_to_email_def sample_dict_def html_only_dict_def
        py_slice_def slice_index_def sample_email_def html_only_email_def get_str_def
        get_list_def get_is_read_def get_folder_def)
  have c: "connected search_provider"
    by (simp add: search_provider_def sample_provider_def)
  have cd: "comparable_dates (filter (\<lambda>d. get_folder d = ''INBOX'') (map snd (emails search_provider)))"
    unfolding recs by (simp add: comparable_dates_def sample_dict_def html_only_dict_def)
  from fetch_emails_slice [OF c _ _ cd, of 2 1 "\<lambda>i. 0"]
  obtain msgs S where
    "list_all2 presents (filter (\<lambda>d. get_folder d = ''INBOX'') (map snd (emails search_provider))) msgs"
    "newest_first msgs S"
    "fetch_emails search_provider (\<lambda>i. 0) ''INBOX'' 2 1 = Inr (take (nat 2) (drop (nat 1) S))"
    by auto
  then have "list_all2 presents
           [sample_dict ''m1'' ''Budget plan'' ''INBOX'' 10 False, html_only_dict,
            sample_dict ''m3'' ''PLAN B'' ''INBOX'' 30 True] msgs
       \<and> newest_first msgs S
       \<and> take 2 (drop 1 S) =
           [html_only_email, sample_email ''m1'' ''Budget plan'' ''INBOX'' (Naive 10) False]"
    unfolding recs ev by simp
  with ev show ?thesis by blast
qed

text \<open>C5 as stated fails: with an offset-naive and an offset-aware timestamp in the
  folder the sort raises, and \<open>fetch\<close> returns no list.\<close>

theorem fetch_emails_mixed_timestamps:
  "connected mixed_provider
   \<and> fetch_emails mixed_provider (\<lambda>i. 0) ''INBOX'' 10 0 = Inl TypeError"
  by (simp add: fetch_emails_def mixed_provider_def sample_provider_def sort_newest_first_def
      mixed_dates_def dicts_to_emails_def dict_to_email_def sample_dict_def get_folder_def)

lemma lower_samples:
  "lower ''plan'' = ''plan''" "lower ''Budget plan'' = ''budget plan''"
  "lower ''Hello'' = ''hello''" "lower ''alice@local'' = ''alice@local''"
  by code_simp+

text \<open>The scope test of \<open>search\<close> agrees with the folder of the data model on every
  record that has a folder key, and rejects every record that has none.\<close>

lemma in_scope_folder_key:
  "d_folder d \<noteq> None \<Longrightarrow> in_scope (Some f) d = (f = [] \<or> get_folder d = f)"
  "d_folder d = None \<Longrightarrow> f \<noteq> [] \<Longrightarrow> \<not> in_scope (Some f) d"
  by (auto simp: in_scope_def get_folder_def)

text \<open>
  C6 (defect of the code). A stored record with no folder key belongs to INBOX for
  \<open>fetch\<close> and for \<open>folders()\<close>, and a search without scope finds it, but a search
  for the same query within the scope INBOX does not return it: the scope test of
  \<open>search\<close> reads the folder key without the default the other operations apply.
\<close>

theorem search_scope_misses_default_folder:
  "connected legacy_provider
   \<and> fetch_emails legacy_provider (\<lambda>i. 0) ''INBOX'' 10 0 =
       Inr [sample_email ''m1'' ''Budget plan'' ''INBOX'' (Naive 10) False]
   \<and> map (\<lambda>f. (fo_name f, fo_total_count f)) (get_folders legacy_provider) =
       [(''INBOX'', 1), (''Sent'', 0), (''Drafts'', 0), (''Trash'', 0)]
   \<and> search_emails legacy_provider (\<lambda>i. 0) ''plan'' None 10 =
       Inr [sample_email ''m1'' ''Budget plan'' ''INBOX'' (Naive 10) False]
   \<and> search_emails legacy_provider (\<lambda>i. 0) ''plan'' (Some ''INBOX'') 10 = Inr []"
proof -
  have m: "matches ''plan'' ((sample_dict ''m1'' ''Budget plan'' ''INBOX'' 10 False)\<lparr>d_folder := None\<rparr>)"
    by (simp add: matches_def Let_def sample_dict_def get_str_def lower_samples str_in_def
        sublist_code prefix_code)
  have s: "in_scope None ((sample_dict ''m1'' ''Budget plan'' ''INBOX'' 10 False)\<lparr>d_folder := None\<rparr>)"
    "\<not> in_scope (Some ''INBOX'') ((sample_dict ''m1'' ''Budget plan'' ''INBOX'' 10 False)\<lparr>d_folder := None\<rparr>)"
    by (simp_all add: in_scope_def sample_dict_def)
  have conv: "dict_to_email 0 ((sample_dict ''m1'' ''Budget plan'' ''INBOX'' 10 False)\<lparr>d_folder := None\<rparr>)
      = sample_email ''m1'' ''Budget plan'' ''INBOX'' (Naive 10) False"
    by (simp add: dict_to_email_def sample_dict_def sample_email_def get_str_def get_list_def
        get_is_read_def get_folder_def)
  have f: "get_folder ((sample_dict ''m1'' ''Budget plan'' ''INBOX'' 10 False)\<lparr>d_folder := None\<rparr>) = ''INBOX''"
    by (simp add: get_folder_def sample_dict_def)
  have c: "connected legacy_provider"
    by (simp add: legacy_provider_def sample_provider_def)
  have e: "emails legacy_provider =
      [(''m1'', (sample_dict ''m1'' ''Budget plan'' ''INBOX'' 10 False)\<lparr>d_folder := None\<rparr>)]"
    by (simp add: legacy_provider_def)
  have a1: "fetch_emails legacy_provider (\<lambda>i. 0) ''INBOX'' 10 0 =
       Inr [sample_email ''m1'' ''Budget plan'' ''INBOX'' (Naive 10) False]"
    by (simp add: fetch_emails_def c e f dicts_to_emails_def conv sort_newest_first_def
        mixed_dates_def py_slice_def slice_index_def)
  have a2: "map (\<lambda>f. (fo_name f, fo_total_count f)) (get_folders legacy_provider) =
       [(''INBOX'', 1), (''Sent'', 0), (''Drafts'', 0), (''Trash'', 0)]"
    by (simp add: get_folders_def e Let_def default_folders_def Folder_def get_is_read_def
        get_folder_def sample_dict_def)
  have a3: "search_emails legacy_provider (\<lambda>i. 0) ''plan'' None 10 =
       Inr [sample_email ''m1'' ''Budget plan'' ''INBOX'' (Naive 10) False]"
    by (simp add: search_emails_def c e m s dicts_to_emails_def conv sort_newest_first_def
        mixed_dates_def py_slice_def slice_index_def)
  have a4: "search_emails legacy_provider (\<lambda>i. 0) ''plan'' (Some ''INBOX'') 10 = Inr []"
    by (simp add: search_emails_def c e m s dicts_to_emails_def sort_newest_first_def
        mixed_dates_def py_slice_def slice_index_def)
  from c a1 a2 a3 a4 show ?thesis by (intro conjI)
qed

lemma linebreak_chars [simp]: "is_linebreak LF" "is_linebreak CR" "LF \<noteq> CR" "CR \<noteq> LF" "is_space LF"
  by (simp_all add: is_linebreak_def is_space_def LF_def CR_def)

lemma linebreak_is_space: "is_linebreak c \<Longrightarrow> is_space c"
  by (auto simp: is_linebreak_def is_space_def)

lemma splitlines_from_free_all:
  "list_all (\<lambda>c. \<not> is_linebreak c) cur \<Longrightarrow>
   list_all (list_all (\<lambda>c. \<not> is_linebreak c)) (splitlines_from cur s)"
  by (induction cur s rule: splitlines_from.induct) simp_all

lemma splitlines_from_free:
  "\<forall>c \<in> set cur. \<not> is_linebreak c \<Longrightarrow>
   \<forall>l \<in> set (splitlines_from cur s). \<forall>c \<in> set l. \<not> is_linebreak c"
  using splitlines_from_free_all [of cur s] by (simp add: list_all_iff)

lemma splitlines_from_line:
  "\<forall>c \<in> set l. \<not> is_linebreak c \<Longrightarrow>
   splitlines_from cur (l @ rest) = splitlines_from (cur @ l) rest"
proof (induction l arbitrary: cur)
  case Nil
  then show ?case by simp
next
  case (Cons c l)
  then have c: "\<not> is_linebreak c" "c \<noteq> CR" by auto
  show ?case
  proof (cases "l @ rest")
    case Nil
    then show ?thesis using c by simp
  next
    case (Cons d cs)
    have "splitlines_from cur (c # l @ rest) = splitlines_from (cur @ [c]) (l @ rest)"
      using c by (simp add: Cons)
    also have "\<dots> = splitlines_from ((cur @ [c]) @ l) rest"
      using Cons.prems by (intro Cons.IH) simp
    finally show ?thesis by simp
  qed
qed

lemma splitlines_from_LF: "splitlines_from cur (LF # rest) = cur # splitlines_from [] rest"
  by (cases rest) simp_all

lemma splitlines_join:
  "\<forall>l \<in> set ls. good_line l \<Longrightarrow> splitlines (join_lines ls) = ls"
proof (induction ls rule: join_lines.induct)
  case 1
  then show ?case by (simp add: splitlines_def)
next
  case (2 l)
  then have "\<forall>c \<in> set l. \<not> is_linebreak c" "l \<noteq> []" by (simp_all add: good_line_def)
  then show ?case
    using splitlines_from_line [of l "[]" "[]"] by (simp add: splitlines_def)
next
  case (3 l l2 ls)
  then have l: "\<forall>c \<in> set l. \<not> is_linebreak c" by (simp add: good_line_def)
  have "splitlines (join_lines (l # l2 # ls)) = splitlines_from [] (l @ LF # join_lines (l2 # ls))"
    by (simp add: splitlines_def)
  also have "\<dots> = splitlines_from l (LF # join_lines (l2 # ls))"
    using splitlines_from_line [OF l, of "[]"] by simp
  also have "\<dots> = l # splitlines (join_lines (l2 # ls))"
    by (simp add: splitlines_from_LF splitlines_def)
  finally show ?case using 3 by simp
qed

lemma strip_Nil [simp]: "strip [] = []"
  by (simp add: strip_def)

lemma strip_subset: "set (strip s) \<subseteq> set s"
proof -
  have "set (strip s) \<subseteq> set (rev (dropWhile is_space (rev s)))"
    unfolding strip_def by (rule set_dropWhileD [THEN subsetI])
  also have "\<dots> \<subseteq> set (rev s)"
    using set_dropWhileD [of _ is_space "rev s"] by auto
  finally show ?thesis by simp
qed

lemma strip_id: "s \<noteq> [] \<Longrightarrow> \<not> is_space (hd s) \<Longrightarrow> \<not> is_space (last s) \<Longrightarrow> strip s = s"
proof -
  assume a: "s \<noteq> []" "\<not> is_space (hd s)" "\<not> is_space (last s)"
  then have "dropWhile is_space (rev s) = rev s"
    by (cases "rev s") (auto simp: hd_rev)
  moreover have "dropWhile is_space s = s"
    using a by (cases s) auto
  ultimately show ?thesis by (simp add: strip_def)
qed

lemma strip_ends:
  assumes "strip s \<noteq> []"
  shows "\<not> is_space (hd (strip s)) \<and> \<not> is_space (last (strip s))"
proof -
  let ?t = "rev (dropWhile is_space (rev s))"
  have t: "?t \<noteq> []"
  proof
    assume a: "?t = []"
    have "strip s = dropWhile is_space ?t" by (simp add: strip_def)
    also have "\<dots> = []" unfolding a by simp
    finally show False using assms by simp
  qed
  then have "\<not> is_space (hd (dropWhile is_space (rev s)))"
    by (simp add: hd_dropWhile)
  then have lt: "\<not> is_space (last ?t)" using t by (simp add: last_rev)
  have h: "\<not> is_space (hd (strip s))"
    using assms unfolding strip_def by (rule hd_dropWhile)
  have "?t = takeWhile is_space ?t @ strip s"
    by (simp add: strip_def)
  then obtain pre where "?t = pre @ strip s" ..
  with assms have "last (strip s) = last ?t" by simp
  with lt h show ?thesis by simp
qed

lemma good_line_strip: "good_line l \<Longrightarrow> strip l = l"
  by (simp add: good_line_def strip_id)

lemma collapse_from_line:
  "LF \<notin> set l \<Longrightarrow> collapse_from 0 (l @ rest) = l @ collapse_from 0 rest"
  by (induction l) (auto simp: emit_newlines_def)

lemma collapse_from_one:
  "s \<noteq> [] \<Longrightarrow> hd s \<noteq> LF \<Longrightarrow> collapse_from (Suc 0) s = LF # collapse_from 0 s"
  by (cases s) (simp_all add: emit_newlines_def)

lemma join_lines_hd:
  "ls \<noteq> [] \<Longrightarrow> \<forall>l \<in> set ls. l \<noteq> [] \<Longrightarrow>
   join_lines ls \<noteq> [] \<and> hd (join_lines ls) = hd (hd ls)"
  by (induction ls rule: join_lines.induct) simp_all

lemma join_lines_last:
  "ls \<noteq> [] \<Longrightarrow> \<forall>l \<in> set ls. l \<noteq> [] \<Longrightarrow> last (join_lines ls) = last (last ls)"
proof (induction ls rule: join_lines.induct)
  case (3 l l2 ls)
  then have "join_lines (l2 # ls) \<noteq> []"
    using join_lines_hd [of "l2 # ls"] by simp
  with 3 show ?case by simp
qed simp_all

lemma good_line_no_LF: "good_line l \<Longrightarrow> LF \<notin> set l"
  using linebreak_chars(1) by (auto simp: good_line_def)

lemma good_line_nonempty: "good_line l \<Longrightarrow> l \<noteq> []"
  by (simp add: good_line_def)

lemma collapse_join:
  "\<forall>l \<in> set ls. good_line l \<Longrightarrow> collapse_newlines (join_lines ls) = join_lines ls"
proof (induction ls rule: join_lines.induct)
  case 1
  then show ?case by (simp add: collapse_newlines_def emit_newlines_def)
next
  case (2 l)
  then have "LF \<notin> set l" by (simp add: good_line_no_LF)
  then show ?case
    using collapse_from_line [of l "[]"] by (simp add: collapse_newlines_def emit_newlines_def)
next
  case (3 l l2 ls)
  let ?x = "join_lines (l2 # ls)"
  from 3 have l: "LF \<notin> set l" by (simp add: good_line_no_LF)
  from 3 have ne: "\<forall>l \<in> set (l2 # ls). l \<noteq> []" by (simp add: good_line_nonempty)
  have x: "?x \<noteq> []" "hd ?x = hd l2"
    using join_lines_hd [of "l2 # ls"] ne by simp_all
  from 3 have "LF \<notin> set l2" "l2 \<noteq> []" by (simp_all add: good_line_no_LF good_line_nonempty)
  then have "hd l2 \<noteq> LF" by (metis hd_in_set)
  with x have one: "collapse_from (Suc 0) ?x = LF # collapse_from 0 ?x"
    by (simp add: collapse_from_one)
  have "collapse_newlines (join_lines (l # l2 # ls)) = collapse_from 0 (l @ LF # ?x)"
    by (simp add: collapse_newlines_def)
  also have "\<dots> = l @ collapse_from 0 (LF # ?x)"
    using l by (rule collapse_from_line)
  also have "\<dots> = l @ LF # collapse_newlines ?x"
    using one by (simp add: collapse_newlines_def)
  also have "\<dots> = l @ LF # ?x"
    using 3 by simp
  finally show ?case by simp
qed

lemma strip_join:
  assumes "\<forall>l \<in> set ls. good_line l"
  shows "strip (join_lines ls) = join_lines ls"
proof (cases ls)
  case Nil
  then show ?thesis by simp
next
  case (Cons a as)
  then have ne: "ls \<noteq> []" by simp
  from assms have all: "\<forall>l \<in> set ls. l \<noteq> []" by (simp add: good_line_nonempty)
  have "good_line (hd ls)" "good_line (last ls)" using assms ne by simp_all
  then have "\<not> is_space (hd (hd ls))" "\<not> is_space (last (last ls))"
    by (simp_all add: good_line_def)
  then show ?thesis
    using join_lines_hd [OF ne all] join_lines_last [OF ne all] by (simp add: strip_id)
qed

lemma good_lines_of_text:
  "\<forall>l \<in> set (filter (\<lambda>line. line \<noteq> []) (map strip (splitlines text))). good_line l"
proof
  fix l assume "l \<in> set (filter (\<lambda>line. line \<noteq> []) (map strip (splitlines text)))"
  then obtain l0 where l0: "l0 \<in> set (splitlines text)" "l = strip l0" "strip l0 \<noteq> []" by auto
  have "\<forall>c \<in> set l0. \<not> is_linebreak c"
    using splitlines_from_free [of "[]" "text"] l0(1) by (simp add: splitlines_def)
  then have "\<forall>c \<in> set (strip l0). \<not> is_linebreak c"
    using strip_subset [of l0] by auto
  then show "good_line l"
    using l0 strip_ends [of l0] by (simp add: good_line_def)
qed

lemma clean_text_lines:
  "clean_text text = join_lines (filter (\<lambda>line. line \<noteq> []) (map strip (splitlines text)))"
  using good_lines_of_text [of "text"]
  by (simp add: clean_text_def Let_def collapse_join strip_join)

lemma clean_text_join:
  assumes "\<forall>l \<in> set ls. good_line l"
  shows "clean_text (join_lines ls) = join_lines ls"
proof -
  have "map strip ls = ls"
    using assms by (simp add: map_idI good_line_strip)
  moreover have "filter (\<lambda>line. line \<noteq> []) ls = ls"
    using assms by (simp add: filter_id_conv good_line_nonempty)
  ultimately show ?thesis
    using assms by (simp add: clean_text_lines splitlines_join)
qed

lemma clean_text_idem: "clean_text (clean_text text) = clean_text text"
  using good_lines_of_text [of "text"] by (simp add: clean_text_lines [of "text"] clean_text_join)

text \<open>
  C8 (as amended). \<open>html_to_text("") = ""\<close>; \<open>html_to_text\<close> raises only when the
  parser raises on a non-empty input; its cleanup of the extracted text is idempotent;
  and rendering an output again returns it unchanged whenever the tree the parser
  builds for that output has the output as its text (an output without markup or
  character references).
\<close>

theorem html_to_text_idempotent_on_plain_output:
  "html_to_text parser [] = Inr []
   \<and> (\<forall>e. html_to_text parser s = Inl e \<longrightarrow> s \<noteq> [] \<and> parser s = Inl e)
   \<and> clean_text (clean_text t) = clean_text t
   \<and> (\<forall>out soup. html_to_text parser s = Inr out \<and> parser out = Inr soup \<and> soup_text soup = out
         \<longrightarrow> html_to_text parser out = Inr out)"
proof -
  have a: "html_to_text parser [] = Inr []"
    by (simp add: html_to_text_def)
  have b: "\<forall>e. html_to_text parser s = Inl e \<longrightarrow> s \<noteq> [] \<and> parser s = Inl e"
    by (auto simp: html_to_text_def split: if_splits sum.splits)
  have c: "\<forall>out soup. html_to_text parser s = Inr out \<and> parser out = Inr soup \<and> soup_text soup = out
         \<longrightarrow> html_to_text parser out = Inr out"
  proof (intro allI impI)
    fix out soup
    assume h: "html_to_text parser s = Inr out \<and> parser out = Inr soup \<and> soup_text soup = out"
    then consider "out = []" | x where "out = clean_text x"
      by (auto simp: html_to_text_def split: if_splits sum.splits)
    then have "clean_text out = out"
    proof cases
      case 1
      then show ?thesis
        by (simp add: clean_text_def splitlines_def collapse_newlines_def emit_newlines_def)
    next
      case 2
      then show ?thesis by (simp add: clean_text_idem)
    qed
    with h show "html_to_text parser out = Inr out"
      by (simp add: html_to_text_def)
  qed
  have d: "clean_text (clean_text t) = clean_text t"
    by (rule clean_text_idem)
  show ?thesis
    by (rule conjI [OF a conjI [OF b conjI [OF d c]]])
qed

theorem html_to_text_idempotent_on_plain_output_witness:
  "html_to_text example_parser ''<p>Hello</p>'' = Inr ''Hello''
   \<and> html_to_text example_parser ''Hello'' = Inr ''Hello''"
proof -
  have r: "html_to_text example_parser ''<p>Hello</p>'' = Inr ''Hello''"
    by code_simp
  have p: "example_parser ''Hello'' = Inr [Text ''Hello'']" "soup_text [Text ''Hello''] = ''Hello''"
    by code_simp+
  from html_to_text_idempotent_on_plain_output [of example_parser "''<p>Hello</p>''"] r p
  have "html_to_text example_parser ''Hello'' = Inr ''Hello''" by blast
  with r show ?thesis by simp
qed

text \<open>C8 as stated fails: the rendering of \<open>&lt;b&gt;x&lt;/b&gt;\<close> is the text
  \<open><b>x</b>\<close>, whose rendering is \<open>x\<close>.\<close>

theorem html_to_text_not_idempotent:
  "html_to_text example_parser ''&lt;b&gt;x&lt;/b&gt;'' = Inr ''<b>x</b>''
   \<and> html_to_text example_parser ''<b>x</b>'' = Inr ''x''"
  by code_simp

text \<open>
  C9 (as amended). The cleanup of \<open>html_to_text\<close> drops every blank line: its result is
  the trimmed non-empty lines of the extracted text joined by single newlines, so no
  line of the output is empty; the stage that collapses three or more newlines to two
  and the final trim do not change it.
\<close>

theorem clean_text_drops_blank_lines:
  "clean_text t = join_lines (filter (\<lambda>line. line \<noteq> []) (map strip (splitlines t)))
   \<and> splitlines (clean_text t) = filter (\<lambda>line. line \<noteq> []) (map strip (splitlines t))
   \<and> [] \<notin> set (splitlines (clean_text t))
   \<and> collapse_newlines (clean_text t) = clean_text t
   \<and> strip (clean_text t) = clean_text t
   \<and> (\<forall>out. html_to_text parser html = Inr out \<longrightarrow> [] \<notin> set (splitlines out))"
proof -
  let ?ls = "filter (\<lambda>line. line \<noteq> []) (map strip (splitlines t))"
  have g: "\<forall>l \<in> set ?ls. good_line l" by (rule good_lines_of_text)
  have a: "clean_text t = join_lines ?ls" by (rule clean_text_lines)
  have b: "splitlines (clean_text t) = ?ls" unfolding a using g by (rule splitlines_join)
  have c: "[] \<notin> set (splitlines (clean_text t))" unfolding b by simp
  have d: "collapse_newlines (clean_text t) = clean_text t" unfolding a using g by (rule collapse_join)
  have e: "strip (clean_text t) = clean_text t" unfolding a using g by (rule strip_join)
  have f: "\<forall>out. html_to_text parser html = Inr out \<longrightarrow> [] \<notin> set (splitlines out)"
  proof (intro allI impI)
    fix out assume "html_to_text parser html = Inr out"
    then consider "out = []" | x where "out = clean_text x"
      by (auto simp: html_to_text_def split: if_splits sum.splits)
    then show "[] \<notin> set (splitlines out)"
    proof cases
      case 1
      then show ?thesis by (simp add: splitlines_def)
    next
      case 2
      have "splitlines (clean_text x) = filter (\<lambda>line. line \<noteq> []) (map strip (splitlines x))"
        unfolding clean_text_lines using good_lines_of_text by (rule splitlines_join)
      with 2 show ?thesis by simp
    qed
  qed
  from a b c d e f show ?thesis by blast
qed

theorem clean_text_drops_blank_lines_witness:
  "html_to_text example_parser ''<p>a</p><br><br><br><br><p>b</p>'' = Inr (''a'' @ [LF] @ ''b'')
   \<and> [] \<notin> set (splitlines (''a'' @ [LF] @ ''b''))"
proof -
  have r: "html_to_text example_parser ''<p>a</p><br><br><br><br><p>b</p>'' = Inr (''a'' @ [LF] @ ''b'')"
    by code_simp
  with clean_text_drops_blank_lines [of _ example_parser "''<p>a</p><br><br><br><br><p>b</p>''"]
  show ?thesis by blast
qed

text \<open>C9 as stated fails: a run of four blank lines between two lines leaves no blank
  line in the output, not one.\<close>

theorem clean_text_keeps_no_blank_line:
  "soup_text [Element ''p'' [Text ''a''], Element ''br'' [], Element ''br'' [], Element ''br'' [],
              Element ''br'' [], Element ''p'' [Text ''b'']] = ''a'' @ [LF, LF, LF, LF, LF] @ ''b'' @ [LF]
   \<and> clean_text (''a'' @ [LF, LF, LF, LF, LF] @ ''b'' @ [LF]) = ''a'' @ [LF] @ ''b''
   \<and> html_to_text example_parser ''<p>a</p><br><br><br><br><p>b</p>'' = Inr (''a'' @ [LF] @ ''b'')"
  by code_simp

lemma address_list_plain:
  "\<forall>s. v \<noteq> Some (Header8bit s) \<Longrightarrow> \<exists>l. address_list v = Inr l"
  by (cases v) (auto simp: address_list_def split: header_value.splits)

lemma html_only_message_headers:
  "msg_get html_only_message ''To'' = Some (Plain ''bob@example.org, carol@example.org'')"
  "msg_get html_only_message ''Cc'' = None"
  "msg_get html_only_message ''Bcc'' = None"
  "msg_get html_only_message ''to'' = Some (Plain ''bob@example.org, carol@example.org'')"
  "msg_get eight_bit_message ''To'' = Some (Header8bit ''Bj?rn <bob@example.org>'')"
  by code_simp+

text \<open>
  C7 (as amended). The To, Cc and Bcc headers of the raw message are absent or strings
  (an \<open>email.header.Header\<close> object in one of them makes the normalizer raise before it
  reads the body). When the body HTML parsed from the message is non-empty and the
  parsed body text is empty, the normalized message keeps that body HTML and its body
  text is the HTML-to-Text Renderer applied to it (and an exception of the renderer is
  the exception of the normalizer).
\<close>

theorem parse_email_html_fallback:
  assumes "\<forall>name \<in> {''To'', ''Cc'', ''Bcc''}. \<forall>s. msg_get m name \<noteq> Some (Header8bit s)"
    and "parse_body decode m email_id = (body_text, body_html, attachments)"
    and "body_html \<noteq> []" and "body_text = []"
  shows "(\<forall>t. html_to_text parser body_html = Inr t \<longrightarrow>
            (\<exists>e. parse_email parser decode parse_date now m email_id = Inr e
                 \<and> em_body_text e = t \<and> em_body_html e = body_html))
       \<and> (\<forall>x. html_to_text parser body_html = Inl x \<longrightarrow>
            parse_email parser decode parse_date now m email_id = Inl x)"
proof -
  obtain tos where t: "address_list (msg_get m ''To'') = Inr tos"
    using assms(1) address_list_plain [of "msg_get m ''To''"] by auto
  obtain ccs where c: "address_list (msg_get m ''Cc'') = Inr ccs"
    using assms(1) address_list_plain [of "msg_get m ''Cc''"] by auto
  obtain bccs where b: "address_list (msg_get m ''Bcc'') = Inr bccs"
    using assms(1) address_list_plain [of "msg_get m ''Bcc''"] by auto
  show ?thesis
    using assms(2-4) by (simp add: parse_email_def Let_def t c b)
qed

theorem parse_email_html_fallback_witness:
  "msg_get html_only_message ''To'' = Some (Plain ''bob@example.org, carol@example.org'')
   \<and> msg_get html_only_message ''Cc'' = None
   \<and> msg_get html_only_message ''Bcc'' = None
   \<and> parse_body (\<lambda>b. b) html_only_message ''7'' = ([], ''<p>Hello</p>'', [])
   \<and> html_to_text example_parser ''<p>Hello</p>'' = Inr ''Hello''
   \<and> map_sum id em_body_text (parse_email example_parser (\<lambda>b. b) (\<lambda>s. None) 0 html_only_message ''7'')
       = Inr ''Hello''
   \<and> map_sum id em_body_html (parse_email example_parser (\<lambda>b. b) (\<lambda>s. None) 0 html_only_message ''7'')
       = Inr ''<p>Hello</p>''"
proof -
  have h: "\<forall>name \<in> {''To'', ''Cc'', ''Bcc''}. \<forall>s. msg_get html_only_message name \<noteq> Some (Header8bit s)"
    by (simp add: html_only_message_headers)
  have b: "parse_body (\<lambda>b. b) html_only_message ''7'' = ([], ''<p>Hello</p>'', [])"
    by (simp add: parse_body_def html_only_message_def)
  have r: "html_to_text example_parser ''<p>Hello</p>'' = Inr ''Hello''"
    by code_simp
  from parse_email_html_fallback [OF h b, of example_parser "\<lambda>s. None" 0] r
  have "\<exists>e. parse_email example_parser (\<lambda>b. b) (\<lambda>s. None) 0 html_only_message ''7'' = Inr e
           \<and> em_body_text e = ''Hello'' \<and> em_body_html e = ''<p>Hello</p>''"
    by simp
  then have "map_sum id em_body_text (parse_email example_parser (\<lambda>b. b) (\<lambda>s. None) 0 html_only_message ''7'')
       = Inr ''Hello''
     \<and> map_sum id em_body_html (parse_email example_parser (\<lambda>b. b) (\<lambda>s. None) 0 html_only_message ''7'')
       = Inr ''<p>Hello</p>''" by auto
  with b r show ?thesis by (simp add: html_only_message_headers)
qed

text \<open>C7 as stated fails: the rendering of an HTML body without text is empty, so the
  normalized message has a non-empty body HTML and an empty body text.\<close>

theorem parse_email_empty_text_with_html:
  "map_sum id em_body_html
     (parse_email example_parser (\<lambda>b. b) (\<lambda>s. None) 0 empty_paragraph_message ''7'') = Inr ''<p></p>''
   \<and> map_sum id em_body_text
     (parse_email example_parser (\<lambda>b. b) (\<lambda>s. None) 0 empty_paragraph_message ''7'') = Inr []"
proof -
  have r: "html_to_text example_parser ''<p></p>'' = Inr []"
    by code_simp
  have m: "msg_get empty_paragraph_message ''To'' = Some (Plain ''bob@example.org, carol@example.org'')"
    "msg_get empty_paragraph_message ''Cc'' = None"
    "msg_get empty_paragraph_message ''Bcc'' = None"
    by code_simp+
  have a: "\<exists>l. address_list (Some (Plain ''bob@example.org, carol@example.org'')) = Inr l"
    "address_list None = Inr []"
    by (simp_all add: address_list_def)
  then obtain l where l: "address_list (Some (Plain ''bob@example.org, carol@example.org'')) = Inr l"
    by blast
  have b: "parse_body (\<lambda>b. b) empty_paragraph_message ''7'' = ([], ''<p></p>'', [])"
    by (simp add: parse_body_def empty_paragraph_message_def html_only_message_def)
  show ?thesis
    by (simp add: parse_email_def Let_def m l a(2) b r)
qed

text \<open>Outside the amended claim: a header with 8-bit bytes is handed over as a
  \<open>Header\<close> object, whose missing \<open>split\<close> ends the normalizer, whatever the body;
  and header names are looked up without regard to case.\<close>

lemma parse_email_header_object:
  "msg_get m ''To'' = Some (Header8bit s) \<Longrightarrow>
   parse_email parser decode parse_date now m email_id = Inl AttributeError"
  by (simp add: parse_email_def Let_def address_list_def)

lemma parse_email_eight_bit_message:
  "parse_email example_parser (\<lambda>b. b) (\<lambda>s. None) 0 eight_bit_message ''7'' = Inl AttributeError"
  by (rule parse_email_header_object) (rule html_only_message_headers(5))

lemma msg_get_ignores_case:
  "msg_get html_only_message ''to'' = msg_get html_only_message ''To''"
  by (simp add: html_only_message_headers)

end
